theory Spec2Isabelle
  imports Complex_Main "HOL-Library.Sublist"
begin

section \<open>JavaScript values: thrown errors and truthiness\<close>

text \<open>
  A JavaScript call either returns or throws. A thrown value is kept with its
  \<^verbatim>\<open>message\<close>; a computation that may throw has a result of type \<open>'a js\<close>, with
  \<open>Inl\<close> for the thrown error. \<open>try_catch\<close> is \<^verbatim>\<open>try { body } catch (e) { handler(e) }\<close>.
\<close>

datatype js_error = TypeError string | Error string

type_synonym 'a js = "js_error + 'a"

fun message :: "js_error \<Rightarrow> string" where
  "message (TypeError m) = m"
| "message (Error m) = m"

definition try_catch :: "'a js \<Rightarrow> (js_error \<Rightarrow> 'a js) \<Rightarrow> 'a js" where
  "try_catch body handler = (case body of Inl e \<Rightarrow> handler e | Inr v \<Rightarrow> Inr v)"

text \<open>
  A value that is a string or \<^verbatim>\<open>undefined\<close> is a \<open>string option\<close>; it is falsy when it
  is \<^verbatim>\<open>undefined\<close> or the empty string.
\<close>

definition truthy :: "string option \<Rightarrow> bool" where
  "truthy v = (case v of None \<Rightarrow> False | Some s \<Rightarrow> s \<noteq> [])"


section \<open>The filename resolver \<^verbatim>\<open>getFileName\<close>\<close>

subsection \<open>The pattern \<^verbatim>\<open>/filename[^;=\n]*=((['"]).*?\2|[^;\n]*)/\<close>\<close>

text \<open>
  Strings are lists of 8-bit characters, as the header values of the HTTP layer are.
  The character classes of the pattern, and the line terminators that \<^verbatim>\<open>.\<close> does not
  match (of the four of JavaScript, the two that fit in a byte).
\<close>

definition is_quote :: "char \<Rightarrow> bool" where
  "is_quote c = (c = CHR 0x27 \<or> c = CHR 0x22)"

definition line_terminator :: "char \<Rightarrow> bool" where
  "line_terminator c = (c = CHR 0x0A \<or> c = CHR 0x0D)"

definition name_char :: "char \<Rightarrow> bool" where
  "name_char c = (c \<noteq> CHR '';'' \<and> c \<noteq> CHR ''='' \<and> c \<noteq> CHR 0x0A)"

definition value_char :: "char \<Rightarrow> bool" where
  "value_char c = (c \<noteq> CHR '';'' \<and> c \<noteq> CHR 0x0A)"

fun strip_prefix :: "string \<Rightarrow> string \<Rightarrow> string option" where
  "strip_prefix [] s = Some s"
| "strip_prefix (p # ps) [] = None"
| "strip_prefix (p # ps) (c # cs) = (if p = c then strip_prefix ps cs else None)"

text \<open>
  \<^verbatim>\<open>.*?\2\<close> after the opening quote \<open>q\<close>: the lazy star stops at the first later \<open>q\<close>,
  and fails when a line terminator comes first or no \<open>q\<close> follows.
\<close>

definition quoted :: "char \<Rightarrow> string \<Rightarrow> string option" where
  "quoted q u =
     (let inner = takeWhile (\<lambda>c. c \<noteq> q) u
      in if length inner < length u \<and> list_all (\<lambda>c. \<not> line_terminator c) inner
         then Some inner else None)"

text \<open>
  Capture group 1, matched at the text after \<^verbatim>\<open>=\<close>: the quoted alternative is tried
  first, the bare alternative \<^verbatim>\<open>[^;\n]*\<close> (greedy, possibly empty) otherwise.
\<close>

definition group1 :: "string \<Rightarrow> string" where
  "group1 t =
     (case t of
        [] \<Rightarrow> []
      | q # u \<Rightarrow>
          (if is_quote q
           then (case quoted q u of
                   Some inner \<Rightarrow> q # inner @ [q]
                 | None \<Rightarrow> takeWhile value_char t)
           else takeWhile value_char t))"

text \<open>
  The whole pattern tried at the start of \<open>s\<close>. The class \<^verbatim>\<open>[^;=\n]*\<close> excludes
  \<^verbatim>\<open>=\<close>, so backtracking into it cannot help: after the longest run the next character
  has to be \<^verbatim>\<open>=\<close>.
\<close>

definition match_here :: "string \<Rightarrow> string option" where
  "match_here s =
     (case strip_prefix ''filename'' s of
        None \<Rightarrow> None
      | Some r \<Rightarrow>
          (case dropWhile name_char r of
             [] \<Rightarrow> None
           | c # t \<Rightarrow> if c = CHR ''='' then Some (group1 t) else None))"

text \<open>
  \<^verbatim>\<open>exec\<close>: the leftmost position where the pattern matches; the result is
  \<^verbatim>\<open>matches[1]\<close>, and \<open>None\<close> is the \<^verbatim>\<open>null\<close> of no match.
\<close>

fun exec :: "string \<Rightarrow> string option" where
  "exec [] = None"
| "exec (c # cs) =
     (case match_here (c # cs) of Some g \<Rightarrow> Some g | None \<Rightarrow> exec cs)"

text \<open>\<^verbatim>\<open>.replace(/['"]/g, '')\<close>\<close>

definition strip_quotes :: "string \<Rightarrow> string" where
  "strip_quotes g = filter (\<lambda>c. \<not> is_quote c) g"


subsection \<open>The path functions of the runtime (POSIX flavour)\<close>

text \<open>
  \<^verbatim>\<open>path.basename\<close>: trailing slashes are dropped, then the part after the last slash
  is returned.
\<close>

definition basename :: "string \<Rightarrow> string" where
  "basename p =
     rev (takeWhile (\<lambda>c. c \<noteq> CHR ''/'') (dropWhile (\<lambda>c. c = CHR ''/'') (rev p)))"

text \<open>
  \<^verbatim>\<open>path.extname\<close>: from the last dot of the last path segment to its end; empty when
  the segment has no dot, when its only dot is its first character, and for \<^verbatim>\<open>..\<close>.
\<close>

definition extname :: "string \<Rightarrow> string" where
  "extname p =
     (let b = basename p;
          startDot = length b - Suc (length (takeWhile (\<lambda>c. c \<noteq> CHR ''.'') (rev b)))
      in if CHR ''.'' \<notin> set b \<or> startDot = 0 \<or> b = ''..'' then [] else drop startDot b)"

text \<open>
  \<^verbatim>\<open>toLowerCase\<close> on the ASCII letters. The path component of a parsed URL is
  percent-encoded ASCII, so no other letter reaches it here.
\<close>

definition lower_char :: "char \<Rightarrow> char" where
  "lower_char c =
     (case map_of (zip ''ABCDEFGHIJKLMNOPQRSTUVWXYZ'' ''abcdefghijklmnopqrstuvwxyz'') c of
        Some l \<Rightarrow> l
      | None \<Rightarrow> c)"

definition toLowerCase :: "string \<Rightarrow> string" where
  "toLowerCase s = map lower_char s"

definition videoExts :: "string list" where
  "videoExts = [''.mp4'', ''.mkv'', ''.avi'', ''.mov'', ''.webm'', ''.flv'']"


subsection \<open>\<^verbatim>\<open>getFileName(contentDisposition, url)\<close>\<close>

text \<open>
  The function is the same text in both variants of the service. The URL parser of the
  runtime is not part of the sources: \<open>URL_pathname\<close> stands for
  \<^verbatim>\<open>new URL(url).pathname\<close>, which throws a \<^verbatim>\<open>TypeError\<close> on a string that is not a URL.
  \<open>header_name\<close> is the first \<^verbatim>\<open>if\<close> of the body: the name taken from the header, when
  the header is truthy, the pattern matches and the captured token is not empty.
\<close>

definition header_name :: "string option \<Rightarrow> string option" where
  "header_name contentDisposition =
     (case contentDisposition of
        None \<Rightarrow> None
      | Some h \<Rightarrow>
          (if h = [] then None
           else (case exec h of
                   None \<Rightarrow> None
                 | Some g \<Rightarrow> if g \<noteq> [] then Some (strip_quotes g) else None)))"

definition url_name :: "(string \<Rightarrow> string js) \<Rightarrow> string \<Rightarrow> string js" where
  "url_name URL_pathname url =
     (case URL_pathname url of
        Inl e \<Rightarrow> Inl e
      | Inr urlPath \<Rightarrow>
          (let fileName = basename urlPath;
               ext = toLowerCase (extname fileName)
           in Inr (if ext = [] \<or> ext \<notin> set videoExts then fileName @ ''.mp4''
                   else fileName)))"

definition getFileName_body :: "(string \<Rightarrow> string js) \<Rightarrow> string option \<Rightarrow> string \<Rightarrow> string js" where
  "getFileName_body URL_pathname contentDisposition url =
     (case header_name contentDisposition of
        Some name \<Rightarrow> Inr name
      | None \<Rightarrow> url_name URL_pathname url)"

definition getFileName :: "(string \<Rightarrow> string js) \<Rightarrow> string option \<Rightarrow> string \<Rightarrow> string js" where
  "getFileName URL_pathname contentDisposition url =
     try_catch (getFileName_body URL_pathname contentDisposition url)
       (\<lambda>error. Inr ''video.mp4'')"


section \<open>The relay: request context, response and events\<close>

subsection \<open>The response object\<close>

text \<open>
  The fields of \<^verbatim>\<open>res\<close> that the handlers read or change. \<open>body\<close> is the list of chunks
  put out to the client, \<open>ended\<close> says that the response has been finished, and
  \<open>destroyed\<close> that the client's connection has closed. The value of
  \<^verbatim>\<open>X-Estimated-Size\<close> is \<^verbatim>\<open>Math.floor(contentLength * 0.7)\<close>, a floating-point product
  of a header string: it is kept symbolic.
\<close>

datatype header_value = Text string | Floor07 string

record response =
  statusCode :: nat
  headers :: "(string \<times> header_value) list"
  headersSent :: bool
  body :: "string list"
  ended :: bool
  destroyed :: bool

definition fresh_response :: response where
  "fresh_response = \<lparr>statusCode = 200, headers = [], headersSent = False, body = [],
                      ended = False, destroyed = False\<rparr>"

text \<open>
  When the client's connection closes, the runtime marks the response as destroyed. From
  then on nothing is put out: \<^verbatim>\<open>res.status\<close> still sets the status code of the object, but
  \<^verbatim>\<open>res.send\<close> writes neither headers nor body, and \<^verbatim>\<open>res.headersSent\<close> keeps the value
  it had. On a live response \<^verbatim>\<open>res.send\<close> sends the headers with the status code, then
  the text, and finishes the response; the handlers call it only while
  \<^verbatim>\<open>res.headersSent\<close> is false.
\<close>

definition socket_closed :: "response \<Rightarrow> response" where
  "socket_closed r = r\<lparr>destroyed := True\<rparr>"

definition res_status :: "nat \<Rightarrow> response \<Rightarrow> response" where
  "res_status code r = r\<lparr>statusCode := code\<rparr>"

definition res_send :: "string \<Rightarrow> response \<Rightarrow> response" where
  "res_send text r =
     (if destroyed r then r\<lparr>ended := True\<rparr>
      else r\<lparr>headersSent := True, body := body r @ [text], ended := True\<rparr>)"

definition res_setHeader :: "string \<Rightarrow> header_value \<Rightarrow> response \<Rightarrow> response" where
  "res_setHeader name v r = r\<lparr>headers := headers r @ [(name, v)]\<rparr>"

text \<open>
  What \<^verbatim>\<open>command.pipe(res, { end: true })\<close> does with the engine's output: each chunk is
  written to the response (the first write sends the headers), and the end of the output
  ends the response. Once the response is finished or destroyed, nothing is written.
\<close>

definition pipe_write :: "string \<Rightarrow> response \<Rightarrow> response" where
  "pipe_write chunk r =
     (if ended r \<or> destroyed r then r else r\<lparr>headersSent := True, body := body r @ [chunk]\<rparr>)"

definition pipe_end :: "response \<Rightarrow> response" where
  "pipe_end r = (if ended r \<or> destroyed r then r else r\<lparr>headersSent := True, ended := True\<rparr>)"


subsection \<open>The environment\<close>

text \<open>
  Upstream requests go through \<^verbatim>\<open>axios\<close>. A request ends with a response of some status,
  with a network error, or with a timeout; \<^verbatim>\<open>validateStatus\<close> (set as the default in both
  variants) decides which statuses resolve the promise, every other outcome rejects it.
  The messages of the rejections are the library's.
\<close>

datatype http_method = HEAD | GET

datatype upstream_result =
    Responded nat "(string \<times> string) list"
  | NetworkError string
  | Timeout

fun decimal :: "nat \<Rightarrow> string" where
  "decimal n =
     (if n < 10 then [''0123456789'' ! n]
      else decimal (n div 10) @ [''0123456789'' ! (n mod 10)])"

declare decimal.simps [simp del]

definition validateStatus :: "nat \<Rightarrow> bool" where
  "validateStatus status = (status < 400)"

definition axios :: "upstream_result \<Rightarrow> (string \<times> string) list js" where
  "axios r =
     (case r of
        Responded st hs \<Rightarrow>
          if validateStatus st then Inr hs
          else Inl (Error (''Request failed with status code '' @ decimal st))
      | NetworkError m \<Rightarrow> Inl (Error m)
      | Timeout \<Rightarrow> Inl (Error ''timeout of 5000ms exceeded''))"

text \<open>The engine process behind a command object is running or has exited.\<close>

datatype proc = Running | Exited

text \<open>
  Modelled from the spec: the \<^verbatim>\<open>kill\<close> call of the engine library, whose code is not
  part of the sources. Section 4.3: it "forcibly terminates the engine process", is a
  no-op after natural completion, and a "failure to kill (engine already exited, OS denies
  signal)" can happen. So a call either throws, leaving the process as it was, or
  returns, and then the process has exited (it stays exited if it already was). The
  argument \<open>outcome\<close> says which of the two happens.
\<close>

definition kill :: "js_error option \<Rightarrow> proc \<Rightarrow> proc js" where
  "kill outcome p = (case outcome of Some e \<Rightarrow> Inl e | None \<Rightarrow> Inr Exited)"

text \<open>
  An exception thrown by the synchronous code that follows the second \<^verbatim>\<open>await\<close>:
  by \<^verbatim>\<open>res.setHeader\<close>, by the \<^verbatim>\<open>ffmpeg(...)\<close> builder chain (before the command is
  assigned), or by \<^verbatim>\<open>pipe\<close> (after it).
\<close>

datatype sync_fault = NoFault | HeaderThrows js_error | FfmpegThrows js_error | PipeThrows js_error

text \<open>
  What the handler cannot decide: the URL parser of the runtime, whether the \<open>n\<close>-th
  call of \<^verbatim>\<open>kill\<close> throws (\<open>None\<close>: it returns), and the fault of the synchronous code.
\<close>

record env =
  url_parser :: "string \<Rightarrow> string js"
  kill_outcome :: "nat \<Rightarrow> js_error option"
  sync_fault :: sync_fault


subsection \<open>The request context\<close>

text \<open>
  The per-request state: the variables of the handler's closure (\<open>videoUrl\<close>,
  \<open>isClientConnected\<close>, \<open>ffmpegCommand\<close> with the state of its process, \<open>contentLength\<close>,
  \<open>originalFileName\<close>, \<open>res\<close>), where the \<^verbatim>\<open>async\<close> function is suspended (\<open>awaiting\<close>),
  and which listeners have been registered. Four fields record what the handler has done
  to the outside: the upstream requests issued, the number of \<^verbatim>\<open>ffmpeg(...)\<close> invocations
  created, the number of \<^verbatim>\<open>kill\<close> calls, and the console.
\<close>

datatype pending = HeadProbe | StreamOpen

text \<open>
  A line of the console: \<^verbatim>\<open>console.log\<close> or \<^verbatim>\<open>console.error\<close> of a text, the progress
  line with its number (possibly undefined), and \<^verbatim>\<open>console.error(label, error)\<close> with an
  error object, which the runtime prints with its name, message and stack.
\<close>

datatype console_line =
    Log string
  | LogError string
  | LogPercent "real option"
  | LogErrorObject string js_error

record ctx =
  awaiting :: "pending option"
  closeListener :: bool
  streamListener :: bool
  engineListeners :: bool
  piped :: bool
  videoUrl :: string
  isClientConnected :: bool
  ffmpegCommand :: "proc option"
  contentLength :: "string option"
  originalFileName :: string
  res :: response
  upstream :: "(http_method \<times> string) list"
  spawned :: nat
  kills :: nat
  console :: "console_line list"

definition log :: "console_line \<Rightarrow> ctx \<Rightarrow> ctx" where
  "log line s = s\<lparr>console := console s @ [line]\<rparr>"

definition respond :: "nat \<Rightarrow> string \<Rightarrow> ctx \<Rightarrow> ctx" where
  "respond code text s = s\<lparr>res := res_send text (res_status code (res s))\<rparr>"

text \<open>\<^verbatim>\<open>if (!res.headersSent) { res.status(500).send(text); }\<close>\<close>

definition respond_500_unless_sent :: "string \<Rightarrow> ctx \<Rightarrow> ctx" where
  "respond_500_unless_sent text s = (if \<not> headersSent (res s) then respond 500 text s else s)"

text \<open>
  The events delivered to a request: the client's connection closes (the response is
  destroyed, and \<^verbatim>\<open>req\<close> emits \<^verbatim>\<open>close\<close>), the two upstream
  promises settle, the input stream reports an error, the engine command emits
  \<^verbatim>\<open>start\<close>, \<^verbatim>\<open>progress\<close> (with a payload, possibly missing, whose \<^verbatim>\<open>percent\<close> is possibly
  undefined), \<^verbatim>\<open>error\<close> (the error and \<^verbatim>\<open>stderr\<close>) or \<^verbatim>\<open>end\<close>, and the engine's output
  produces a chunk or ends.
\<close>

datatype progress = Progress (percent: "real option")

datatype event =
    ReqClose
  | HeadSettled upstream_result
  | GetSettled upstream_result
  | StreamError js_error
  | FfmpegStart string
  | FfmpegProgress "progress option"
  | FfmpegError js_error "string option"
  | FfmpegEnd
  | FfmpegOutput string
  | FfmpegOutputEnd

text \<open>
  A request is run by delivering its events in order; an exception that escapes a
  listener ends the run (nothing in the service catches it).
\<close>

fun run :: "(ctx \<Rightarrow> event \<Rightarrow> ctx js) \<Rightarrow> ctx \<Rightarrow> event list \<Rightarrow> ctx js" where
  "run step s [] = Inr s"
| "run step s (ev # evs) = (case step s ev of Inl e \<Rightarrow> Inl e | Inr s' \<Rightarrow> run step s' evs)"


section \<open>The disconnect-aware handler of \<^verbatim>\<open>/compress\<close>\<close>

text \<open>
  The variant that tracks the client's connection and cleans up the engine. The
  synchronous start of the handler: a missing \<^verbatim>\<open>url\<close> is answered at once with 400 and
  nothing else happens; otherwise the \<^verbatim>\<open>close\<close> listener is registered and the HEAD probe
  is issued.
\<close>

definition idle :: ctx where
  "idle = \<lparr>awaiting = None, closeListener = False, streamListener = False,
            engineListeners = False, piped = False, videoUrl = [], isClientConnected = True,
            ffmpegCommand = None, contentLength = None, originalFileName = [],
            res = fresh_response, upstream = [], spawned = 0, kills = 0, console = []\<rparr>"

definition compress_request :: "string option \<Rightarrow> ctx" where
  "compress_request url =
     (case (if truthy url then url else None) of
        None \<Rightarrow> respond 400 ''Missing video URL'' idle
      | Some videoUrl' \<Rightarrow>
          idle\<lparr>videoUrl := videoUrl', closeListener := True, isClientConnected := True,
               upstream := [(HEAD, videoUrl')], awaiting := Some HeadProbe\<rparr>)"

definition on_close :: "ctx \<Rightarrow> ctx" where
  "on_close s = log (Log ''Client disconnected'') (s\<lparr>isClientConnected := False\<rparr>)"

text \<open>
  \<^verbatim>\<open>cleanup\<close>: when a command has been assigned, \<^verbatim>\<open>kill('SIGKILL')\<close> is called on it inside
  a \<^verbatim>\<open>try\<close>, and an exception of that call is logged.
\<close>

definition cleanup :: "env \<Rightarrow> ctx \<Rightarrow> ctx js" where
  "cleanup env s =
     (case ffmpegCommand s of
        None \<Rightarrow> Inr s
      | Some p \<Rightarrow>
          try_catch
            (case kill (kill_outcome env (kills s)) p of
               Inl e \<Rightarrow> Inl e
             | Inr p' \<Rightarrow> Inr (s\<lparr>ffmpegCommand := Some p', kills := Suc (kills s)\<rparr>))
            (\<lambda>e. Inr (log (LogErrorObject ''Error killing FFmpeg process:'' e)
                        (s\<lparr>kills := Suc (kills s)\<rparr>))))"

text \<open>The \<^verbatim>\<open>catch\<close> block of the handler; the \<^verbatim>\<open>async\<close> function ends with it.\<close>

definition catch_block :: "env \<Rightarrow> js_error \<Rightarrow> ctx \<Rightarrow> ctx js" where
  "catch_block env error s =
     (case cleanup env (log (LogError (''Error: '' @ message error)) (s\<lparr>awaiting := None\<rparr>)) of
        Inl e \<Rightarrow> Inl e
      | Inr s' \<Rightarrow> Inr (respond_500_unless_sent (''Failed to process video: '' @ message error) s'))"

text \<open>The code between the two \<^verbatim>\<open>await\<close>s: the probe's headers give the file name.\<close>

definition after_head :: "env \<Rightarrow> upstream_result \<Rightarrow> ctx \<Rightarrow> ctx js" where
  "after_head env r s =
     (case axios r of
        Inl error \<Rightarrow> catch_block env error s
      | Inr hs \<Rightarrow>
          (case getFileName (url_parser env) (map_of hs ''content-disposition'') (videoUrl s) of
             Inl error \<Rightarrow> catch_block env error s
           | Inr name \<Rightarrow>
               Inr (s\<lparr>contentLength := map_of hs ''content-length'', originalFileName := name,
                      upstream := upstream s @ [(GET, videoUrl s)],
                      awaiting := Some StreamOpen\<rparr>)))"

text \<open>
  The code after the second \<^verbatim>\<open>await\<close>: the response headers are set, the listener of
  the input stream is registered, the command is created with its listeners and assigned
  to \<open>ffmpegCommand\<close>, and its output is piped to the response.
\<close>

definition attachment :: "string \<Rightarrow> header_value" where
  "attachment name = Text (''attachment; filename='' @ [CHR 0x22] @ ''compressed_'' @ name @ [CHR 0x22])"

definition after_get :: "env \<Rightarrow> upstream_result \<Rightarrow> ctx \<Rightarrow> ctx js" where
  "after_get env r s =
     (case axios r of
        Inl error \<Rightarrow> catch_block env error s
      | Inr hs \<Rightarrow>
          (case sync_fault env of
             HeaderThrows error \<Rightarrow> catch_block env error s
           | fault \<Rightarrow>
               (let s1 = s\<lparr>res := res_setHeader ''Content-Type'' (Text ''video/mp4'')
                                   (res_setHeader ''Content-Disposition''
                                      (attachment (originalFileName s)) (res s)),
                            streamListener := True\<rparr>
                in case fault of
                     FfmpegThrows error \<Rightarrow> catch_block env error s1
                   | fault' \<Rightarrow>
                       (let s2 = s1\<lparr>ffmpegCommand := Some Running, spawned := Suc (spawned s1),
                                    engineListeners := True\<rparr>
                        in case fault' of
                             PipeThrows error \<Rightarrow> catch_block env error s2
                           | _ \<Rightarrow> Inr (s2\<lparr>piped := True, awaiting := None\<rparr>)))))"

text \<open>The listeners.\<close>

definition on_stream_error :: "env \<Rightarrow> js_error \<Rightarrow> ctx \<Rightarrow> ctx js" where
  "on_stream_error env error s =
     (case cleanup env (log (LogErrorObject ''Input stream error:'' error) s) of
        Inl e \<Rightarrow> Inl e
      | Inr s' \<Rightarrow> Inr (respond_500_unless_sent ''Error processing video stream'' s'))"

definition on_start :: "string \<Rightarrow> ctx \<Rightarrow> ctx" where
  "on_start commandLine s = log (Log (''Started FFmpeg with command: '' @ commandLine)) s"

text \<open>
  Reading \<^verbatim>\<open>progress.percent\<close> throws when the payload is missing. \<^verbatim>\<open>Math.round(x * 100) / 100\<close>
  is taken over the reals.
\<close>

definition get_percent :: "progress option \<Rightarrow> real option js" where
  "get_percent progress =
     (case progress of
        None \<Rightarrow> Inl (TypeError ''Cannot read properties of undefined'')
      | Some p \<Rightarrow> Inr (percent p))"

definition round2 :: "real \<Rightarrow> real" where
  "round2 x = of_int \<lfloor>x * 100 + 1 / 2\<rfloor> / 100"

definition on_progress :: "progress option \<Rightarrow> ctx \<Rightarrow> ctx js" where
  "on_progress progress s =
     (if progress = None then Inr s
      else (case get_percent progress of
              Inl e \<Rightarrow> Inl e
            | Inr p \<Rightarrow>
                (case (if isClientConnected s then p else None) of
                   None \<Rightarrow> Inr s
                 | Some x \<Rightarrow> Inr (log (LogPercent (Some (round2 x))) s))))"

definition log_stderr :: "string option \<Rightarrow> ctx \<Rightarrow> ctx" where
  "log_stderr stderr s =
     (case (if truthy stderr then stderr else None) of
        None \<Rightarrow> s
      | Some t \<Rightarrow> log (LogError (''FFmpeg stderr: '' @ t)) s)"

definition on_error :: "env \<Rightarrow> js_error \<Rightarrow> string option \<Rightarrow> ctx \<Rightarrow> ctx js" where
  "on_error env err stderr s =
     cleanup env
       (if isClientConnected s
        then respond_500_unless_sent ''Compression failed''
               (log_stderr stderr (log (LogError (''FFmpeg error: '' @ message err)) s))
        else log (Log ''FFmpeg process terminated due to client disconnect'') s)"

definition on_end :: "env \<Rightarrow> ctx \<Rightarrow> ctx js" where
  "on_end env s = cleanup env (log (Log ''Compression finished successfully'') s)"

text \<open>
  The engine emits \<^verbatim>\<open>end\<close> when its process has run to completion: the process has exited
  when the listener runs.
\<close>

definition process_exited :: "ctx \<Rightarrow> ctx" where
  "process_exited s = s\<lparr>ffmpegCommand := map_option (\<lambda>p. Exited) (ffmpegCommand s)\<rparr>"

text \<open>
  One event delivered to a request. An event with no listener registered, or a promise
  that is not awaited, changes nothing.
\<close>

definition compress :: "env \<Rightarrow> ctx \<Rightarrow> event \<Rightarrow> ctx js" where
  "compress env s ev =
     (case ev of
        ReqClose \<Rightarrow>
          (let s0 = s\<lparr>res := socket_closed (res s)\<rparr>
           in if closeListener s then Inr (on_close s0) else Inr s0)
      | HeadSettled r \<Rightarrow> if awaiting s = Some HeadProbe then after_head env r s else Inr s
      | GetSettled r \<Rightarrow> if awaiting s = Some StreamOpen then after_get env r s else Inr s
      | StreamError error \<Rightarrow> if streamListener s then on_stream_error env error s else Inr s
      | FfmpegStart commandLine \<Rightarrow> if engineListeners s then Inr (on_start commandLine s) else Inr s
      | FfmpegProgress progress \<Rightarrow> if engineListeners s then on_progress progress s else Inr s
      | FfmpegError err stderr \<Rightarrow> if engineListeners s then on_error env err stderr s else Inr s
      | FfmpegEnd \<Rightarrow> if engineListeners s then on_end env (process_exited s) else Inr s
      | FfmpegOutput chunk \<Rightarrow> if piped s then Inr (s\<lparr>res := pipe_write chunk (res s)\<rparr>) else Inr s
      | FfmpegOutputEnd \<Rightarrow> if piped s then Inr (s\<lparr>res := pipe_end (res s)\<rparr>) else Inr s)"

text \<open>The catch-all error middleware, which sees the response only.\<close>

definition error_middleware :: "js_error \<Rightarrow> ctx \<Rightarrow> ctx" where
  "error_middleware err s =
     respond_500_unless_sent ''Internal server error'' (log (LogErrorObject ''Unhandled error:'' err) s)"


section \<open>The earlier handler of \<^verbatim>\<open>/compress\<close> (\<^verbatim>\<open>index.js\<close>)\<close>

text \<open>
  This variant has no \<^verbatim>\<open>close\<close> listener, no \<open>isClientConnected\<close> and no \<^verbatim>\<open>cleanup\<close>: it
  never calls \<^verbatim>\<open>kill\<close>. Its command is the constant \<^verbatim>\<open>command\<close>, kept in the field
  \<open>ffmpegCommand\<close>. It adds the two size headers when the probe gave a length.
\<close>

definition compress_request_index :: "string option \<Rightarrow> ctx" where
  "compress_request_index url =
     (case (if truthy url then url else None) of
        None \<Rightarrow> respond 400 ''Missing video URL'' idle
      | Some videoUrl' \<Rightarrow>
          idle\<lparr>videoUrl := videoUrl', upstream := [(HEAD, videoUrl')],
               awaiting := Some HeadProbe\<rparr>)"

definition catch_block_index :: "js_error \<Rightarrow> ctx \<Rightarrow> ctx" where
  "catch_block_index error s =
     respond_500_unless_sent (''Failed to process video: '' @ message error)
       (log (LogError (''Error: '' @ message error)) (s\<lparr>awaiting := None\<rparr>))"

definition after_head_index :: "env \<Rightarrow> upstream_result \<Rightarrow> ctx \<Rightarrow> ctx js" where
  "after_head_index env r s =
     (case axios r of
        Inl error \<Rightarrow> Inr (catch_block_index error s)
      | Inr hs \<Rightarrow>
          (case getFileName (url_parser env) (map_of hs ''content-disposition'') (videoUrl s) of
             Inl error \<Rightarrow> Inr (catch_block_index error s)
           | Inr name \<Rightarrow>
               Inr (s\<lparr>contentLength := map_of hs ''content-length'', originalFileName := name,
                      upstream := upstream s @ [(GET, videoUrl s)],
                      awaiting := Some StreamOpen\<rparr>)))"

definition size_headers :: "string option \<Rightarrow> response \<Rightarrow> response" where
  "size_headers contentLength' r =
     (case (if truthy contentLength' then contentLength' else None) of
        None \<Rightarrow> r
      | Some n \<Rightarrow>
          res_setHeader ''X-Estimated-Size'' (Floor07 n) (res_setHeader ''X-Original-Size'' (Text n) r))"

definition after_get_index :: "env \<Rightarrow> upstream_result \<Rightarrow> ctx \<Rightarrow> ctx js" where
  "after_get_index env r s =
     (case axios r of
        Inl error \<Rightarrow> Inr (catch_block_index error s)
      | Inr hs \<Rightarrow>
          (case sync_fault env of
             HeaderThrows error \<Rightarrow> Inr (catch_block_index error s)
           | fault \<Rightarrow>
               (let s1 = s\<lparr>res := size_headers (contentLength s)
                                   (res_setHeader ''Content-Type'' (Text ''video/mp4'')
                                      (res_setHeader ''Content-Disposition''
                                         (attachment (originalFileName s)) (res s))),
                            streamListener := True\<rparr>
                in case fault of
                     FfmpegThrows error \<Rightarrow> Inr (catch_block_index error s1)
                   | fault' \<Rightarrow>
                       (let s2 = s1\<lparr>ffmpegCommand := Some Running, spawned := Suc (spawned s1),
                                    engineListeners := True\<rparr>
                        in case fault' of
                             PipeThrows error \<Rightarrow> Inr (catch_block_index error s2)
                           | _ \<Rightarrow> Inr (s2\<lparr>piped := True, awaiting := None\<rparr>)))))"

definition on_stream_error_index :: "js_error \<Rightarrow> ctx \<Rightarrow> ctx" where
  "on_stream_error_index error s =
     respond_500_unless_sent ''Error processing video stream''
       (log (LogErrorObject ''Input stream error:'' error) s)"

definition on_progress_index :: "progress option \<Rightarrow> ctx \<Rightarrow> ctx js" where
  "on_progress_index progress s =
     (case get_percent progress of
        Inl e \<Rightarrow> Inl e
      | Inr p \<Rightarrow> Inr (log (LogPercent p) s))"

definition on_error_index :: "js_error \<Rightarrow> string option \<Rightarrow> ctx \<Rightarrow> ctx" where
  "on_error_index err stderr s =
     respond_500_unless_sent ''Compression failed''
       (log (LogError (''FFmpeg stderr: '' @ (case stderr of None \<Rightarrow> ''undefined'' | Some t \<Rightarrow> t)))
          (log (LogErrorObject ''FFmpeg error:'' err) s))"

definition on_end_index :: "ctx \<Rightarrow> ctx" where
  "on_end_index s = log (Log ''Compression finished'') s"

definition compress_index :: "env \<Rightarrow> ctx \<Rightarrow> event \<Rightarrow> ctx js" where
  "compress_index env s ev =
     (case ev of
        ReqClose \<Rightarrow> Inr (s\<lparr>res := socket_closed (res s)\<rparr>)
      | HeadSettled r \<Rightarrow> if awaiting s = Some HeadProbe then after_head_index env r s else Inr s
      | GetSettled r \<Rightarrow> if awaiting s = Some StreamOpen then after_get_index env r s else Inr s
      | StreamError error \<Rightarrow> if streamListener s then Inr (on_stream_error_index error s) else Inr s
      | FfmpegStart commandLine \<Rightarrow> if engineListeners s then Inr (on_start commandLine s) else Inr s
      | FfmpegProgress progress \<Rightarrow> if engineListeners s then on_progress_index progress s else Inr s
      | FfmpegError err stderr \<Rightarrow> if engineListeners s then Inr (on_error_index err stderr s) else Inr s
      | FfmpegEnd \<Rightarrow> if engineListeners s then Inr (on_end_index (process_exited s)) else Inr s
      | FfmpegOutput chunk \<Rightarrow> if piped s then Inr (s\<lparr>res := pipe_write chunk (res s)\<rparr>) else Inr s
      | FfmpegOutputEnd \<Rightarrow> if piped s then Inr (s\<lparr>res := pipe_end (res s)\<rparr>) else Inr s)"


section \<open>Example inputs\<close>

text \<open>
  A stand-in for the URL parser, enough for the examples: the path of an \<^verbatim>\<open>https\<close> URL is
  what follows the host, and every other string is rejected as the parser rejects a
  string that is not a URL. In the example environment \<^verbatim>\<open>kill\<close> never throws and the
  synchronous code has no fault.
\<close>

definition example_parser :: "string \<Rightarrow> string js" where
  "example_parser u =
     (case strip_prefix ''https://'' u of
        None \<Rightarrow> Inl (TypeError ''Invalid URL'')
      | Some r \<Rightarrow> Inr (dropWhile (\<lambda>c. c \<noteq> CHR ''/'') r))"

definition example_env :: env where
  "example_env = \<lparr>url_parser = example_parser, kill_outcome = (\<lambda>n. None), sync_fault = NoFault\<rparr>"

definition example_url :: string where
  "example_url = ''https://cdn.example.com/videos/Movie.WebM''"

text \<open>The header value \<^verbatim>\<open>attachment; filename="name"\<close>.\<close>

definition quoted_header :: "string \<Rightarrow> string" where
  "quoted_header name = ''attachment; filename='' @ [CHR 0x22] @ name @ [CHR 0x22]"


text \<open>
  The example request once it streams: the probe and the stream request have succeeded,
  the command runs and is piped to the response, and nothing has been sent yet.
\<close>

definition example_streaming :: ctx where
  "example_streaming =
     \<lparr>awaiting = None, closeListener = True, streamListener = True, engineListeners = True,
      piped = True, videoUrl = example_url, isClientConnected = True,
      ffmpegCommand = Some Running, contentLength = None, originalFileName = ''Movie.WebM'',
      res = \<lparr>statusCode = 200,
              headers = [(''Content-Disposition'', attachment ''Movie.WebM''),
                         (''Content-Type'', Text ''video/mp4'')],
              headersSent = False, body = [], ended = False, destroyed = False\<rparr>,
      upstream = [(HEAD, example_url), (GET, example_url)], spawned = 1, kills = 0, console = []\<rparr>"

text \<open>
  An environment in which every call of \<^verbatim>\<open>kill\<close> throws, and one in which the first call
  returns and every later call throws.
\<close>

definition throwing_env :: env where
  "throwing_env = example_env\<lparr>kill_outcome := (\<lambda>n. Some (Error ''kill ESRCH''))\<rparr>"

definition flaky_env :: env where
  "flaky_env =
     example_env\<lparr>kill_outcome := (\<lambda>n. if n = 0 then None else Some (Error ''kill ESRCH''))\<rparr>"


section \<open>Termination paths and invariants of a request\<close>

text \<open>
  The events that take a request of the disconnect-aware handler down one of its
  termination paths: the probe or the stream request is rejected, or the synchronous code
  after it throws (the \<^verbatim>\<open>catch\<close> block); the input stream reports an error; the engine
  reports an error; the engine ends.
\<close>

definition termination_path :: "env \<Rightarrow> ctx \<Rightarrow> event \<Rightarrow> bool" where
  "termination_path env s ev =
     (case ev of
        HeadSettled r \<Rightarrow> awaiting s = Some HeadProbe \<and> isl (axios r)
      | GetSettled r \<Rightarrow> awaiting s = Some StreamOpen \<and> (isl (axios r) \<or> sync_fault env \<noteq> NoFault)
      | StreamError error \<Rightarrow> streamListener s
      | FfmpegError err stderr \<Rightarrow> engineListeners s
      | FfmpegEnd \<Rightarrow> engineListeners s
      | _ \<Rightarrow> False)"

text \<open>
  A probe fails when it throws, times out, or comes back with a status of 400 or more.
\<close>

definition probe_fails :: "upstream_result \<Rightarrow> bool" where
  "probe_fails r = (case r of Responded st hs \<Rightarrow> 400 \<le> st | NetworkError m \<Rightarrow> True | Timeout \<Rightarrow> True)"

text \<open>
  The console line that \<^verbatim>\<open>cleanup\<close> writes when it runs in a state: none, unless a command
  is set and the \<^verbatim>\<open>kill\<close> call of this run throws.
\<close>

definition kill_report :: "env \<Rightarrow> ctx \<Rightarrow> console_line list" where
  "kill_report env s =
     (case ffmpegCommand s of
        None \<Rightarrow> []
      | Some p \<Rightarrow>
          (case kill_outcome env (kills s) of
             None \<Rightarrow> []
           | Some e \<Rightarrow> [LogErrorObject ''Error killing FFmpeg process:'' e]))"

text \<open>
  Four conditions on a request context, used as invariants: \<open>quiet\<close>, the handler has
  returned and no listener of the stream or the engine is registered; \<open>probing\<close>, the
  probe is pending and nothing else has happened, except that the client may have gone;
  \<open>one_engine\<close>, at most one invocation has been created, the command variable is set
  exactly when one has, and no \<^verbatim>\<open>kill\<close> has been called before that; \<open>tracked\<close>, a request
  that waits or listens has its \<^verbatim>\<open>close\<close> listener, the flag \<open>isClientConnected\<close> then
  says whether the response is live, a request that listens to the engine or is piped has
  its command, and a piped request waits for no promise.
\<close>

definition quiet :: "ctx \<Rightarrow> bool" where
  "quiet s = (awaiting s = None \<and> \<not> streamListener s \<and> \<not> engineListeners s \<and> \<not> piped s)"

definition probing :: "string \<Rightarrow> bool \<Rightarrow> ctx \<Rightarrow> bool" where
  "probing u gone s = (awaiting s = Some HeadProbe \<and> \<not> streamListener s \<and> \<not> engineListeners s \<and>
     \<not> piped s \<and> res s = fresh_response\<lparr>destroyed := gone\<rparr> \<and> spawned s = 0 \<and> kills s = 0 \<and>
     ffmpegCommand s = None \<and> upstream s = [(HEAD, u)] \<and> videoUrl s = u)"

definition tracked :: "ctx \<Rightarrow> bool" where
  "tracked s =
     ((awaiting s \<noteq> None \<or> streamListener s \<or> engineListeners s \<or> piped s \<longrightarrow> closeListener s) \<and>
      (closeListener s \<longrightarrow> isClientConnected s = (\<not> destroyed (res s))) \<and>
      (engineListeners s \<or> piped s \<longrightarrow> ffmpegCommand s \<noteq> None) \<and>
      (piped s \<longrightarrow> awaiting s = None))"

definition one_engine :: "ctx \<Rightarrow> bool" where
  "one_engine s = (spawned s \<le> 1 \<and> (ffmpegCommand s = None) = (spawned s = 0) \<and>
     (spawned s = 0 \<longrightarrow> kills s = 0) \<and> (awaiting s \<noteq> None \<longrightarrow> spawned s = 0))"


section \<open>Properties of the filename resolver\<close>

lemma basename_no_slash: "CHR ''/'' \<notin> set (basename p)"
proof -
  have "\<forall>c \<in> set (takeWhile (\<lambda>c. c \<noteq> CHR ''/'') xs). c \<noteq> CHR ''/''" for xs :: string
    by (auto dest: set_takeWhileD)
  then show ?thesis unfolding basename_def by auto
qed

lemma basename_segment: "CHR ''/'' \<notin> set b \<Longrightarrow> basename b = b"
proof -
  assume a: "CHR ''/'' \<notin> set b"
  have "dropWhile (\<lambda>c. c = CHR ''/'') xs = xs" if "CHR ''/'' \<notin> set xs" for xs :: string
    using that by (cases xs) auto
  with a have d: "dropWhile (\<lambda>c. c = CHR ''/'') (rev b) = rev b"
    by simp
  from a have t: "takeWhile (\<lambda>c. c \<noteq> CHR ''/'') (rev b) = rev b"
    by (intro takeWhile_eq_all_conv [THEN iffD2]) auto
  show ?thesis by (simp only: basename_def d t rev_rev_ident)
qed

lemma extname_suffix: "CHR ''/'' \<notin> set b \<Longrightarrow> suffix (extname b) b"
  by (simp add: extname_def basename_segment Let_def suffix_drop)

lemma toLowerCase_suffix: "suffix e s \<Longrightarrow> suffix (toLowerCase e) (toLowerCase s)"
  unfolding toLowerCase_def by (rule map_mono_suffix)

lemma toLowerCase_mp4: "toLowerCase (f @ ''.mp4'') = toLowerCase f @ ''.mp4''"
  by (simp add: toLowerCase_def lower_char_def)

text \<open>
  A name derived from the URL is not empty and ends, letter case aside, in one of the
  recognized extensions.
\<close>

lemma url_name_video:
  assumes "url_name P url = Inr name"
  shows "name \<noteq> [] \<and> (\<exists>e\<in>set videoExts. suffix e (toLowerCase name))"
proof -
  from assms obtain urlPath where p: "P url = Inr urlPath"
    by (auto simp: url_name_def split: sum.splits)
  define fileName where "fileName = basename urlPath"
  define ext where "ext = toLowerCase (extname fileName)"
  have ns: "CHR ''/'' \<notin> set fileName" by (simp add: fileName_def basename_no_slash)
  show ?thesis
  proof (cases "ext = [] \<or> ext \<notin> set videoExts")
    case True
    with assms p have "name = fileName @ ''.mp4''"
      by (auto simp: url_name_def Let_def fileName_def ext_def)
    moreover have "suffix ''.mp4'' (toLowerCase fileName @ ''.mp4'')"
      by (rule suffix_appendI) simp
    ultimately show ?thesis by (simp add: toLowerCase_mp4 videoExts_def)
  next
    case False
    with assms p have n: "name = fileName"
      by (auto simp: url_name_def Let_def fileName_def ext_def)
    have "suffix ext (toLowerCase fileName)"
      unfolding ext_def by (rule toLowerCase_suffix) (rule extname_suffix [OF ns])
    moreover from False have "ext \<noteq> []" "ext \<in> set videoExts" by auto
    ultimately show ?thesis using n by (auto simp: toLowerCase_def suffix_def)
  qed
qed

lemma getFileName_returns: "\<exists>name. getFileName P cd url = Inr name"
  by (auto simp: getFileName_def try_catch_def split: sum.splits)

text \<open>
  C7, as the code has it. The claim is that for every header value and URL the resolver
  returns a non-empty name ending in one of the recognized video extensions. It holds for
  the names that do not come from the header: when no filename token is taken from the
  header (the header is absent or empty, the pattern does not match, or the token is
  empty), the result is not empty and ends, compared without regard to letter case, in one
  of \<^verbatim>\<open>.mp4 .mkv .avi .mov .webm .flv\<close>.
\<close>

theorem getFileName_url_derived_video:
  assumes "header_name cd = None"
  shows "\<exists>name. getFileName P cd url = Inr name \<and> name \<noteq> [] \<and>
           (\<exists>e\<in>set videoExts. suffix e (toLowerCase name))"
proof (cases "url_name P url")
  case (Inl e)
  have "suffix ''.mp4'' (toLowerCase ''video.mp4'')"
    by (simp add: toLowerCase_def lower_char_def suffix_def)
  with Inl assms show ?thesis
    by (simp add: getFileName_def getFileName_body_def try_catch_def videoExts_def)
next
  case (Inr name)
  with assms url_name_video [OF Inr] show ?thesis
    by (simp add: getFileName_def getFileName_body_def try_catch_def)
qed

theorem getFileName_url_derived_video_witness:
  "header_name None = None \<and>
   getFileName example_parser None example_url = Inr ''Movie.WebM'' \<and>
   suffix ''.webm'' (toLowerCase ''Movie.WebM'') \<and> ''.webm'' \<in> set videoExts"
  using getFileName_url_derived_video [of None example_parser example_url]
  by (simp add: header_name_def getFileName_def getFileName_body_def try_catch_def
      url_name_def basename_def extname_def toLowerCase_def lower_char_def videoExts_def
      example_parser_def example_url_def suffix_def)

text \<open>
  The claim of C7 as stated fails for a name taken from the header: the header
  \<^verbatim>\<open>attachment; filename="report.pdf"\<close> gives \<^verbatim>\<open>report.pdf\<close>, whatever the URL is.
\<close>

theorem getFileName_header_name_not_video:
  "getFileName example_parser (Some (quoted_header ''report.pdf'')) example_url = Inr ''report.pdf''
   \<and> \<not> (\<exists>e\<in>set videoExts. suffix e (toLowerCase ''report.pdf''))"
  by (simp add: header_name_def getFileName_def getFileName_body_def try_catch_def
      match_here_def group1_def quoted_def is_quote_def line_terminator_def name_char_def
      strip_quotes_def videoExts_def suffix_def quoted_header_def toLowerCase_def lower_char_def)

text \<open>A quoted empty token passes the test of the code and gives the empty name.\<close>

lemma getFileName_header_name_empty:
  "getFileName example_parser (Some (quoted_header [])) example_url = Inr []"
  by (simp add: header_name_def getFileName_def getFileName_body_def try_catch_def
      match_here_def group1_def quoted_def is_quote_def line_terminator_def name_char_def
      strip_quotes_def quoted_header_def)

text \<open>
  C8: for every header value and every URL string, malformed or not, the resolver returns
  and does not throw; whenever its body throws, which is what a malformed URL does once
  the header has given no name, the result is the fixed default \<^verbatim>\<open>video.mp4\<close>.
\<close>

theorem getFileName_never_throws:
  "(\<exists>name. getFileName P cd url = Inr name) \<and>
   (\<forall>e. getFileName_body P cd url = Inl e \<longrightarrow> getFileName P cd url = Inr ''video.mp4'') \<and>
   (\<forall>e. header_name cd = None \<and> P url = Inl e \<longrightarrow> getFileName P cd url = Inr ''video.mp4'')"
  by (auto simp: getFileName_def getFileName_body_def try_catch_def url_name_def
      split: sum.splits option.splits)

theorem getFileName_never_throws_witness:
  "header_name (Some ''inline; filename'') = None \<and>
   example_parser ''not a url'' = Inl (TypeError ''Invalid URL'') \<and>
   getFileName_body example_parser (Some ''inline; filename'') ''not a url''
     = Inl (TypeError ''Invalid URL'') \<and>
   getFileName example_parser (Some ''inline; filename'') ''not a url'' = Inr ''video.mp4''"
  using getFileName_never_throws [of example_parser "Some ''inline; filename''" "''not a url''"]
  by (simp add: header_name_def getFileName_body_def url_name_def match_here_def
      name_char_def example_parser_def)

text \<open>
  C10: when a filename token is taken from the header (the header is not empty, the
  pattern matches and the captured token \<open>g\<close> is not empty), the result is \<open>g\<close> with every
  single and double quote deleted, wherever it stands in the token; the result holds no
  quote character, and nothing is appended to it: the extension is not normalized.
\<close>

theorem getFileName_header_token_unquoted:
  assumes "h \<noteq> []" and "exec h = Some g" and "g \<noteq> []"
  shows "getFileName P (Some h) url = Inr (filter (\<lambda>c. c \<noteq> CHR 0x27 \<and> c \<noteq> CHR 0x22) g) \<and>
         (\<forall>name. getFileName P (Some h) url = Inr name \<longrightarrow>
            CHR 0x27 \<notin> set name \<and> CHR 0x22 \<notin> set name)"
  using assms
  by (auto simp: getFileName_def getFileName_body_def try_catch_def header_name_def
      strip_quotes_def is_quote_def)

theorem getFileName_header_token_unquoted_witness:
  "''attachment; filename=it'' @ [CHR 0x27] @ ''s.txt'' \<noteq> [] \<and>
   exec (''attachment; filename=it'' @ [CHR 0x27] @ ''s.txt'') = Some (''it'' @ [CHR 0x27] @ ''s.txt'') \<and>
   ''it'' @ [CHR 0x27] @ ''s.txt'' \<noteq> [] \<and>
   getFileName example_parser (Some (''attachment; filename=it'' @ [CHR 0x27] @ ''s.txt'')) example_url
     = Inr ''its.txt''"
proof -
  have e: "exec (''attachment; filename=it'' @ [CHR 0x27] @ ''s.txt'') = Some (''it'' @ [CHR 0x27] @ ''s.txt'')"
    by (simp add: match_here_def group1_def is_quote_def name_char_def value_char_def)
  show ?thesis
    using e getFileName_header_token_unquoted [OF _ e, of example_parser example_url]
    by simp
qed


section \<open>Properties of the handlers\<close>

subsection \<open>What each piece of the disconnect-aware handler changes\<close>

lemma log_frame [simp]:
  "awaiting (log l s) = awaiting s"
  "closeListener (log l s) = closeListener s"
  "streamListener (log l s) = streamListener s"
  "engineListeners (log l s) = engineListeners s"
  "piped (log l s) = piped s"
  "isClientConnected (log l s) = isClientConnected s"
  "ffmpegCommand (log l s) = ffmpegCommand s"
  "spawned (log l s) = spawned s"
  "kills (log l s) = kills s"
  "upstream (log l s) = upstream s"
  "videoUrl (log l s) = videoUrl s"
  "res (log l s) = res s"
  "console (log l s) = console s @ [l]"
  by (simp_all add: log_def)

lemma res_status_fields [simp]:
  "statusCode (res_status code r) = code"
  "headers (res_status code r) = headers r"
  "headersSent (res_status code r) = headersSent r"
  "body (res_status code r) = body r"
  "ended (res_status code r) = ended r"
  "destroyed (res_status code r) = destroyed r"
  by (simp_all add: res_status_def)

lemma res_send_fields [simp]:
  "statusCode (res_send t r) = statusCode r"
  "headers (res_send t r) = headers r"
  "headersSent (res_send t r) = (headersSent r \<or> \<not> destroyed r)"
  "body (res_send t r) = (if destroyed r then body r else body r @ [t])"
  "ended (res_send t r) = True"
  "destroyed (res_send t r) = destroyed r"
  by (simp_all add: res_send_def)

lemma res_setHeader_fields [simp]:
  "statusCode (res_setHeader name v r) = statusCode r"
  "headersSent (res_setHeader name v r) = headersSent r"
  "body (res_setHeader name v r) = body r"
  "ended (res_setHeader name v r) = ended r"
  "destroyed (res_setHeader name v r) = destroyed r"
  by (simp_all add: res_setHeader_def)

lemma pipe_fields [simp]:
  "destroyed (pipe_write chunk r) = destroyed r"
  "destroyed (pipe_end r) = destroyed r"
  "statusCode (pipe_write chunk r) = statusCode r"
  "statusCode (pipe_end r) = statusCode r"
  by (simp_all add: pipe_write_def pipe_end_def)

lemma kill_report_log [simp]: "kill_report env (log l s) = kill_report env s"
  by (simp add: kill_report_def log_def split: option.splits)

lemma respond_frame [simp]:
  "awaiting (respond_500_unless_sent t s) = awaiting s"
  "closeListener (respond_500_unless_sent t s) = closeListener s"
  "streamListener (respond_500_unless_sent t s) = streamListener s"
  "engineListeners (respond_500_unless_sent t s) = engineListeners s"
  "piped (respond_500_unless_sent t s) = piped s"
  "isClientConnected (respond_500_unless_sent t s) = isClientConnected s"
  "ffmpegCommand (respond_500_unless_sent t s) = ffmpegCommand s"
  "spawned (respond_500_unless_sent t s) = spawned s"
  "kills (respond_500_unless_sent t s) = kills s"
  "upstream (respond_500_unless_sent t s) = upstream s"
  "videoUrl (respond_500_unless_sent t s) = videoUrl s"
  "console (respond_500_unless_sent t s) = console s"
  "res (respond_500_unless_sent t s) =
     (if headersSent (res s) then res s else res_send t (res_status 500 (res s)))"
  by (simp_all add: respond_500_unless_sent_def respond_def)

lemma cleanup_eq:
  "cleanup env s =
     Inr (case ffmpegCommand s of
            None \<Rightarrow> s
          | Some p \<Rightarrow>
              (case kill_outcome env (kills s) of
                 None \<Rightarrow> s\<lparr>ffmpegCommand := Some Exited, kills := Suc (kills s)\<rparr>
               | Some e \<Rightarrow> log (LogErrorObject ''Error killing FFmpeg process:'' e)
                             (s\<lparr>kills := Suc (kills s)\<rparr>)))"
  by (simp add: cleanup_def kill_def try_catch_def split: option.splits)

lemma cleanup_returns: "\<exists>s'. cleanup env s = Inr s'"
  by (simp add: cleanup_eq)

lemma cleanup_frame:
  assumes "cleanup env s = Inr s'"
  shows "res s' = res s" "awaiting s' = awaiting s" "closeListener s' = closeListener s"
    "streamListener s' = streamListener s" "engineListeners s' = engineListeners s"
    "piped s' = piped s" "isClientConnected s' = isClientConnected s"
    "spawned s' = spawned s" "upstream s' = upstream s" "videoUrl s' = videoUrl s"
    "(ffmpegCommand s' = None) = (ffmpegCommand s = None)"
    "kills s' = (if ffmpegCommand s = None then kills s else Suc (kills s))"
    "ffmpegCommand s \<noteq> None \<Longrightarrow> kill_outcome env (kills s) = None \<Longrightarrow> ffmpegCommand s' = Some Exited"
    "ffmpegCommand s = Some Exited \<Longrightarrow> ffmpegCommand s' = Some Exited"
    "ffmpegCommand s = None \<or> kill_outcome env (kills s) = None \<Longrightarrow> console s' = console s"
    "console s' = console s @ kill_report env s"
  using assms by (auto simp: cleanup_eq log_def kill_report_def split: option.splits)

lemma catch_block_returns: "\<exists>s'. catch_block env error s = Inr s'"
  by (simp add: catch_block_def cleanup_eq)

lemma catch_block_frame:
  assumes "catch_block env error s = Inr s'"
  shows "awaiting s' = None" "closeListener s' = closeListener s"
    "streamListener s' = streamListener s" "engineListeners s' = engineListeners s"
    "piped s' = piped s" "isClientConnected s' = isClientConnected s"
    "spawned s' = spawned s" "upstream s' = upstream s"
    "(ffmpegCommand s' = None) = (ffmpegCommand s = None)"
    "kills s' = (if ffmpegCommand s = None then kills s else Suc (kills s))"
    "ffmpegCommand s \<noteq> None \<Longrightarrow> kill_outcome env (kills s) = None \<Longrightarrow> ffmpegCommand s' = Some Exited"
    "res s' = (if headersSent (res s) then res s
               else res_send (''Failed to process video: '' @ message error) (res_status 500 (res s)))"
    "videoUrl s' = videoUrl s"
proof -
  let ?s0 = "log (LogError (''Error: '' @ message error)) (s\<lparr>awaiting := None\<rparr>)"
  obtain s1 where c: "cleanup env ?s0 = Inr s1" using cleanup_returns by blast
  with assms have s': "s' = respond_500_unless_sent (''Failed to process video: '' @ message error) s1"
    by (simp add: catch_block_def)
  note f = cleanup_frame [OF c]
  show "awaiting s' = None" "closeListener s' = closeListener s"
    "streamListener s' = streamListener s" "engineListeners s' = engineListeners s"
    "piped s' = piped s" "isClientConnected s' = isClientConnected s"
    "spawned s' = spawned s" "upstream s' = upstream s"
    "(ffmpegCommand s' = None) = (ffmpegCommand s = None)"
    "kills s' = (if ffmpegCommand s = None then kills s else Suc (kills s))"
    "res s' = (if headersSent (res s) then res s
               else res_send (''Failed to process video: '' @ message error) (res_status 500 (res s)))"
    "videoUrl s' = videoUrl s"
    using f(1-12) by (simp_all add: s')
  show "ffmpegCommand s' = Some Exited" if "ffmpegCommand s \<noteq> None" "kill_outcome env (kills s) = None"
    using f(13) that by (simp add: s')
qed


lemma run_append:
  "run step s (xs @ ys) = (case run step s xs of Inl e \<Rightarrow> Inl e | Inr s' \<Rightarrow> run step s' ys)"
  by (induction xs arbitrary: s) (auto split: sum.splits)

lemma probe_fails_axios: "probe_fails r = isl (axios r)"
  by (cases r) (simp_all add: probe_fails_def axios_def validateStatus_def)

lemma after_head_failure:
  assumes "axios r = Inl error"
  shows "after_head env r s = catch_block env error s"
  using assms by (simp add: after_head_def)

lemma after_head_success:
  assumes "axios r = Inr hs"
  shows "\<exists>name. after_head env r s =
           Inr (s\<lparr>contentLength := map_of hs ''content-length'', originalFileName := name,
                  upstream := upstream s @ [(GET, videoUrl s)], awaiting := Some StreamOpen\<rparr>)"
proof -
  obtain name where "getFileName (url_parser env) (map_of hs ''content-disposition'') (videoUrl s) = Inr name"
    using getFileName_returns by blast
  with assms show ?thesis by (intro exI [of _ name]) (simp add: after_head_def)
qed

lemma after_get_success:
  assumes "axios r = Inr hs" "sync_fault env = NoFault"
  shows "after_get env r s =
     Inr (s\<lparr>res := res_setHeader ''Content-Type'' (Text ''video/mp4'')
                     (res_setHeader ''Content-Disposition'' (attachment (originalFileName s)) (res s)),
            streamListener := True, ffmpegCommand := Some Running, spawned := Suc (spawned s),
            engineListeners := True, piped := True, awaiting := None\<rparr>)"
  using assms by (simp add: after_get_def Let_def)

lemma after_get_failure:
  assumes "isl (axios r) \<or> sync_fault env \<noteq> NoFault"
  shows "\<exists>error s0. after_get env r s = catch_block env error s0 \<and>
           awaiting s0 = awaiting s \<and> closeListener s0 = closeListener s \<and> upstream s0 = upstream s \<and>
           isClientConnected s0 = isClientConnected s \<and> kills s0 = kills s \<and>
           ((ffmpegCommand s0 = ffmpegCommand s \<and> spawned s0 = spawned s) \<or>
            (ffmpegCommand s0 = Some Running \<and> spawned s0 = Suc (spawned s))) \<and>
           destroyed (res s0) = destroyed (res s) \<and> piped s0 = piped s \<and>
           (engineListeners s0 = engineListeners s \<or> ffmpegCommand s0 = Some Running)"
proof (cases "axios r")
  case (Inl e)
  then show ?thesis by (auto simp: after_get_def)
next
  case (Inr hs)
  with assms have f: "sync_fault env \<noteq> NoFault" by simp
  show ?thesis
  proof (cases "sync_fault env")
    case NoFault with f show ?thesis by simp
  next
    case (HeaderThrows e)
    with Inr show ?thesis by (auto simp: after_get_def)
  next
    case (FfmpegThrows e)
    with Inr show ?thesis
      by (simp add: after_get_def Let_def) (rule exI [of _ e], rule exI, rule conjI, rule refl, simp)
  next
    case (PipeThrows e)
    with Inr show ?thesis
      by (simp add: after_get_def Let_def) (rule exI [of _ e], rule exI, rule conjI, rule refl, simp)
  qed
qed

lemma on_stream_error_frame:
  assumes "on_stream_error env error s = Inr s'"
  shows "awaiting s' = awaiting s" "closeListener s' = closeListener s"
    "streamListener s' = streamListener s" "engineListeners s' = engineListeners s"
    "piped s' = piped s" "isClientConnected s' = isClientConnected s"
    "spawned s' = spawned s" "upstream s' = upstream s"
    "(ffmpegCommand s' = None) = (ffmpegCommand s = None)"
    "kills s' = (if ffmpegCommand s = None then kills s else Suc (kills s))"
    "ffmpegCommand s \<noteq> None \<Longrightarrow> kill_outcome env (kills s) = None \<Longrightarrow> ffmpegCommand s' = Some Exited"
    "res s' = (if headersSent (res s) then res s
               else res_send ''Error processing video stream'' (res_status 500 (res s)))"
proof -
  let ?s0 = "log (LogErrorObject ''Input stream error:'' error) s"
  obtain s1 where c: "cleanup env ?s0 = Inr s1" using cleanup_returns by blast
  with assms have s': "s' = respond_500_unless_sent ''Error processing video stream'' s1"
    by (simp add: on_stream_error_def)
  note f = cleanup_frame [OF c]
  show "awaiting s' = awaiting s" "closeListener s' = closeListener s"
    "streamListener s' = streamListener s" "engineListeners s' = engineListeners s"
    "piped s' = piped s" "isClientConnected s' = isClientConnected s"
    "spawned s' = spawned s" "upstream s' = upstream s"
    "(ffmpegCommand s' = None) = (ffmpegCommand s = None)"
    "kills s' = (if ffmpegCommand s = None then kills s else Suc (kills s))"
    "res s' = (if headersSent (res s) then res s
               else res_send ''Error processing video stream'' (res_status 500 (res s)))"
    using f(1-12) by (simp_all add: s')
  show "ffmpegCommand s' = Some Exited" if "ffmpegCommand s \<noteq> None" "kill_outcome env (kills s) = None"
    using f(13) that by (simp add: s')
qed

lemma log_stderr_frame [simp]:
  "awaiting (log_stderr e s) = awaiting s"
  "closeListener (log_stderr e s) = closeListener s"
  "streamListener (log_stderr e s) = streamListener s"
  "engineListeners (log_stderr e s) = engineListeners s"
  "piped (log_stderr e s) = piped s"
  "isClientConnected (log_stderr e s) = isClientConnected s"
  "ffmpegCommand (log_stderr e s) = ffmpegCommand s"
  "spawned (log_stderr e s) = spawned s"
  "kills (log_stderr e s) = kills s"
  "upstream (log_stderr e s) = upstream s"
  "res (log_stderr e s) = res s"
  by (simp_all add: log_stderr_def split: option.splits)

lemma on_error_frame:
  assumes "on_error env err stderr s = Inr s'"
  shows "awaiting s' = awaiting s" "closeListener s' = closeListener s"
    "streamListener s' = streamListener s" "engineListeners s' = engineListeners s"
    "piped s' = piped s" "isClientConnected s' = isClientConnected s"
    "spawned s' = spawned s" "upstream s' = upstream s"
    "(ffmpegCommand s' = None) = (ffmpegCommand s = None)"
    "kills s' = (if ffmpegCommand s = None then kills s else Suc (kills s))"
    "ffmpegCommand s \<noteq> None \<Longrightarrow> kill_outcome env (kills s) = None \<Longrightarrow> ffmpegCommand s' = Some Exited"
    "res s' = (if isClientConnected s \<and> \<not> headersSent (res s)
               then res_send ''Compression failed'' (res_status 500 (res s)) else res s)"
    "\<not> isClientConnected s \<Longrightarrow>
       console s' = console s @ Log ''FFmpeg process terminated due to client disconnect'' # kill_report env s"
  using assms [unfolded on_error_def, THEN cleanup_frame(1)]
    assms [unfolded on_error_def, THEN cleanup_frame(2)]
    assms [unfolded on_error_def, THEN cleanup_frame(3)]
    assms [unfolded on_error_def, THEN cleanup_frame(4)]
    assms [unfolded on_error_def, THEN cleanup_frame(5)]
    assms [unfolded on_error_def, THEN cleanup_frame(6)]
    assms [unfolded on_error_def, THEN cleanup_frame(7)]
    assms [unfolded on_error_def, THEN cleanup_frame(8)]
    assms [unfolded on_error_def, THEN cleanup_frame(9)]
    assms [unfolded on_error_def, THEN cleanup_frame(11)]
    assms [unfolded on_error_def, THEN cleanup_frame(12)]
    assms [unfolded on_error_def, THEN cleanup_frame(13)]
    assms [unfolded on_error_def, THEN cleanup_frame(16)]
  by (simp_all split: if_splits)

lemma on_end_frame:
  assumes "on_end env s = Inr s'"
  shows "awaiting s' = awaiting s" "closeListener s' = closeListener s"
    "streamListener s' = streamListener s" "engineListeners s' = engineListeners s"
    "piped s' = piped s" "isClientConnected s' = isClientConnected s"
    "spawned s' = spawned s" "upstream s' = upstream s"
    "(ffmpegCommand s' = None) = (ffmpegCommand s = None)"
    "kills s' = (if ffmpegCommand s = None then kills s else Suc (kills s))"
    "ffmpegCommand s \<noteq> None \<Longrightarrow> kill_outcome env (kills s) = None \<Longrightarrow> ffmpegCommand s' = Some Exited"
    "res s' = res s"
  using assms [unfolded on_end_def, THEN cleanup_frame(1)]
    assms [unfolded on_end_def, THEN cleanup_frame(2)]
    assms [unfolded on_end_def, THEN cleanup_frame(3)]
    assms [unfolded on_end_def, THEN cleanup_frame(4)]
    assms [unfolded on_end_def, THEN cleanup_frame(5)]
    assms [unfolded on_end_def, THEN cleanup_frame(6)]
    assms [unfolded on_end_def, THEN cleanup_frame(7)]
    assms [unfolded on_end_def, THEN cleanup_frame(8)]
    assms [unfolded on_end_def, THEN cleanup_frame(9)]
    assms [unfolded on_end_def, THEN cleanup_frame(11)]
    assms [unfolded on_end_def, THEN cleanup_frame(12)]
    assms [unfolded on_end_def, THEN cleanup_frame(13)]
  by simp_all

lemma on_progress_returns: "\<exists>s'. on_progress progress s = Inr s'"
  by (cases progress) (auto simp: on_progress_def get_percent_def split: option.splits)

lemma on_progress_frame:
  assumes "on_progress progress s = Inr s'"
  shows "awaiting s' = awaiting s" "closeListener s' = closeListener s"
    "streamListener s' = streamListener s" "engineListeners s' = engineListeners s"
    "piped s' = piped s" "isClientConnected s' = isClientConnected s"
    "spawned s' = spawned s" "upstream s' = upstream s"
    "ffmpegCommand s' = ffmpegCommand s" "kills s' = kills s" "res s' = res s"
  using assms
  by (cases progress; auto simp: on_progress_def get_percent_def split: option.splits if_splits)+


lemma process_exited_frame [simp]:
  "awaiting (process_exited s) = awaiting s"
  "closeListener (process_exited s) = closeListener s"
  "streamListener (process_exited s) = streamListener s"
  "engineListeners (process_exited s) = engineListeners s"
  "piped (process_exited s) = piped s"
  "isClientConnected (process_exited s) = isClientConnected s"
  "spawned (process_exited s) = spawned s"
  "kills (process_exited s) = kills s"
  "upstream (process_exited s) = upstream s"
  "res (process_exited s) = res s"
  "(ffmpegCommand (process_exited s) = None) = (ffmpegCommand s = None)"
  by (simp_all add: process_exited_def)

lemma compress_returns: "\<exists>s'. compress env s ev = Inr s'"
proof (cases ev)
  case (HeadSettled r)
  show ?thesis
  proof (cases "axios r")
    case (Inl e)
    with HeadSettled show ?thesis
      using catch_block_returns by (simp add: compress_def after_head_failure)
  next
    case (Inr hs)
    with HeadSettled after_head_success [OF Inr, of env s] show ?thesis
      by (auto simp: compress_def)
  qed
next
  case (GetSettled r)
  show ?thesis
  proof (cases "isl (axios r) \<or> sync_fault env \<noteq> NoFault")
    case True
    from after_get_failure [OF True, of s] catch_block_returns GetSettled show ?thesis
      by (auto simp: compress_def)
  next
    case False
    then obtain hs where "axios r = Inr hs" "sync_fault env = NoFault"
      by (cases "axios r") auto
    from after_get_success [OF this, of s] GetSettled show ?thesis
      by (simp add: compress_def)
  qed
next
  case (StreamError e)
  then show ?thesis using cleanup_returns [of env]
    by (auto simp: compress_def on_stream_error_def cleanup_eq)
next
  case (FfmpegProgress p)
  then show ?thesis using on_progress_returns [of p s] by (simp add: compress_def)
next
  case (FfmpegError e err)
  then show ?thesis by (simp add: compress_def on_error_def cleanup_eq)
next
  case FfmpegEnd
  then show ?thesis by (simp add: compress_def on_end_def cleanup_eq)
qed (simp_all add: compress_def Let_def)

lemma run_returns: "\<exists>s'. run (compress env) s evs = Inr s'"
proof (induction evs arbitrary: s)
  case Nil show ?case by simp
next
  case (Cons ev evs)
  obtain s1 where "compress env s ev = Inr s1" using compress_returns by blast
  with Cons show ?case by simp
qed

lemma one_engine_step:
  assumes inv: "one_engine s" and step: "compress env s ev = Inr s'"
  shows "one_engine s'"
proof (cases ev)
  case ReqClose
  with assms show ?thesis
    by (auto simp: compress_def on_close_def one_engine_def Let_def split: if_splits)
next
  case (HeadSettled r)
  show ?thesis
  proof (cases "awaiting s = Some HeadProbe")
    case False with assms HeadSettled show ?thesis by (simp add: compress_def)
  next
    case True
    show ?thesis
    proof (cases "axios r")
      case (Inl e)
      with True HeadSettled step have "catch_block env e s = Inr s'"
        by (simp add: compress_def after_head_failure)
      note f = catch_block_frame [OF this]
    from f(1,7,9,10) inv show ?thesis by (simp add: one_engine_def)
    next
      case (Inr hs)
      from after_head_success [OF Inr, of env s] obtain name where
        "after_head env r s =
           Inr (s\<lparr>contentLength := map_of hs ''content-length'', originalFileName := name,
                  upstream := upstream s @ [(GET, videoUrl s)], awaiting := Some StreamOpen\<rparr>)"
        by blast
      with True HeadSettled step have
        "s' = s\<lparr>contentLength := map_of hs ''content-length'', originalFileName := name,
                  upstream := upstream s @ [(GET, videoUrl s)], awaiting := Some StreamOpen\<rparr>"
        by (simp add: compress_def)
      with inv True show ?thesis by (simp add: one_engine_def)
    qed
  qed
next
  case (GetSettled r)
  show ?thesis
  proof (cases "awaiting s = Some StreamOpen")
    case False with assms GetSettled show ?thesis by (simp add: compress_def)
  next
    case True
    with inv have z: "spawned s = 0" "ffmpegCommand s = None" "kills s = 0" by (auto simp: one_engine_def)
    show ?thesis
    proof (cases "isl (axios r) \<or> sync_fault env \<noteq> NoFault")
      case f: True
      from after_get_failure [OF f, of s] obtain error s0 where
        a: "after_get env r s = catch_block env error s0" and
        b: "kills s0 = kills s"
           "(ffmpegCommand s0 = ffmpegCommand s \<and> spawned s0 = spawned s) \<or>
            (ffmpegCommand s0 = Some Running \<and> spawned s0 = Suc (spawned s))"
        by blast
      from a True GetSettled step have "catch_block env error s0 = Inr s'" by (simp add: compress_def)
      note f = catch_block_frame [OF this]
      from f(1,7,9,10) b z show ?thesis by (auto simp: one_engine_def)
    next
      case False
      then obtain hs where "axios r = Inr hs" "sync_fault env = NoFault"
        by (cases "axios r") auto
      from after_get_success [OF this, of s] True GetSettled step have
        "s' = s\<lparr>res := res_setHeader ''Content-Type'' (Text ''video/mp4'')
                     (res_setHeader ''Content-Disposition'' (attachment (originalFileName s)) (res s)),
            streamListener := True, ffmpegCommand := Some Running, spawned := Suc (spawned s),
            engineListeners := True, piped := True, awaiting := None\<rparr>"
        by (simp add: compress_def)
      with z show ?thesis by (simp add: one_engine_def)
    qed
  qed
next
  case (StreamError e)
  show ?thesis
  proof (cases "streamListener s")
    case False with assms StreamError show ?thesis by (simp add: compress_def)
  next
    case True
    with StreamError step have "on_stream_error env e s = Inr s'" by (simp add: compress_def)
    note f = on_stream_error_frame [OF this]
    from f(1,7,9,10) inv show ?thesis by (simp add: one_engine_def)
  qed
next
  case (FfmpegStart c)
  with assms show ?thesis by (auto simp: compress_def on_start_def one_engine_def split: if_splits)
next
  case (FfmpegProgress p)
  show ?thesis
  proof (cases "engineListeners s")
    case False with assms FfmpegProgress show ?thesis by (simp add: compress_def)
  next
    case True
    with FfmpegProgress step have "on_progress p s = Inr s'" by (simp add: compress_def)
    note f = on_progress_frame [OF this]
    from f(1,7,9,10) inv show ?thesis by (simp add: one_engine_def)
  qed
next
  case (FfmpegError e err)
  show ?thesis
  proof (cases "engineListeners s")
    case False with assms FfmpegError show ?thesis by (simp add: compress_def)
  next
    case True
    with FfmpegError step have "on_error env e err s = Inr s'" by (simp add: compress_def)
    note f = on_error_frame [OF this]
    from f(1,7,9,10) inv show ?thesis by (simp add: one_engine_def)
  qed
next
  case FfmpegEnd
  show ?thesis
  proof (cases "engineListeners s")
    case False with assms FfmpegEnd show ?thesis by (simp add: compress_def)
  next
    case True
    with FfmpegEnd step have "on_end env (process_exited s) = Inr s'" by (simp add: compress_def)
    note f = on_end_frame [OF this]
    from f(1,7,9,10) inv show ?thesis by (simp add: one_engine_def)
  qed
next
  case (FfmpegOutput c)
  with assms show ?thesis by (auto simp: compress_def one_engine_def split: if_splits)
next
  case FfmpegOutputEnd
  with assms show ?thesis by (auto simp: compress_def one_engine_def split: if_splits)
qed

lemma one_engine_request: "one_engine (compress_request url)"
  by (simp add: compress_request_def one_engine_def idle_def respond_def split: option.splits)

lemma one_engine_run:
  assumes "one_engine s" "run (compress env) s evs = Inr s'"
  shows "one_engine s'"
  using assms
proof (induction evs arbitrary: s)
  case Nil then show ?case by simp
next
  case (Cons ev evs)
  from Cons.prems obtain s1 where 1: "compress env s ev = Inr s1" and 2: "run (compress env) s1 evs = Inr s'"
    by (auto split: sum.splits)
  from Cons.IH [OF one_engine_step [OF Cons.prems(1) 1] 2] show ?case .
qed

text \<open>
  Neither the \<^verbatim>\<open>close\<close> listener nor the error middleware calls \<^verbatim>\<open>kill\<close>: the first
  records the disconnect, the second answers 500.
\<close>

lemma on_close_engine:
  "\<not> isClientConnected (on_close s) \<and> kills (on_close s) = kills s \<and>
   ffmpegCommand (on_close s) = ffmpegCommand s \<and> res (on_close s) = res s"
  by (simp add: on_close_def)

lemma error_middleware_engine:
  "kills (error_middleware err s) = kills s \<and>
   ffmpegCommand (error_middleware err s) = ffmpegCommand s"
  by (simp add: error_middleware_def)

subsection \<open>The flag and the connection\<close>

lemma tracked_request: "tracked (compress_request url)"
  by (simp add: compress_request_def tracked_def idle_def respond_def fresh_response_def
      split: option.splits)

lemma tracked_step:
  assumes inv: "tracked s" and step: "compress env s ev = Inr s'"
  shows "tracked s'"
proof (cases ev)
  case ReqClose
  with assms show ?thesis
    by (auto simp: compress_def on_close_def tracked_def socket_closed_def Let_def split: if_splits)
next
  case (HeadSettled r)
  show ?thesis
  proof (cases "awaiting s = Some HeadProbe")
    case False with assms HeadSettled show ?thesis by (simp add: compress_def)
  next
    case True
    show ?thesis
    proof (cases "axios r")
      case (Inl e)
      with True HeadSettled step have "catch_block env e s = Inr s'"
        by (simp add: compress_def after_head_failure)
      note f = catch_block_frame [OF this]
      from f(1,2,3,4,5,6,9,12) inv show ?thesis by (simp add: tracked_def)
    next
      case (Inr hs)
      from after_head_success [OF Inr, of env s] obtain name where
        "after_head env r s =
           Inr (s\<lparr>contentLength := map_of hs ''content-length'', originalFileName := name,
                  upstream := upstream s @ [(GET, videoUrl s)], awaiting := Some StreamOpen\<rparr>)"
        by blast
      with True HeadSettled step have
        "s' = s\<lparr>contentLength := map_of hs ''content-length'', originalFileName := name,
                  upstream := upstream s @ [(GET, videoUrl s)], awaiting := Some StreamOpen\<rparr>"
        by (simp add: compress_def)
      with inv True show ?thesis by (simp add: tracked_def)
    qed
  qed
next
  case (GetSettled r)
  show ?thesis
  proof (cases "awaiting s = Some StreamOpen")
    case False with assms GetSettled show ?thesis by (simp add: compress_def)
  next
    case True
    with inv have c: "closeListener s" by (simp add: tracked_def)
    show ?thesis
    proof (cases "isl (axios r) \<or> sync_fault env \<noteq> NoFault")
      case f: True
      from after_get_failure [OF f, of s] obtain error s0 where
        a: "after_get env r s = catch_block env error s0" and
        b: "closeListener s0 = closeListener s" "isClientConnected s0 = isClientConnected s"
           "destroyed (res s0) = destroyed (res s)" "piped s0 = piped s"
           "(ffmpegCommand s0 = ffmpegCommand s \<and> spawned s0 = spawned s) \<or>
            (ffmpegCommand s0 = Some Running \<and> spawned s0 = Suc (spawned s))"
           "engineListeners s0 = engineListeners s \<or> ffmpegCommand s0 = Some Running"
        by blast
      from a True GetSettled step have "catch_block env error s0 = Inr s'" by (simp add: compress_def)
      note f = catch_block_frame [OF this]
      from f(1,2,4,5,6,9,12) b c inv True show ?thesis by (auto simp: tracked_def)
    next
      case False
      then obtain hs where "axios r = Inr hs" "sync_fault env = NoFault"
        by (cases "axios r") auto
      from after_get_success [OF this, of s] True GetSettled step have
        "s' = s\<lparr>res := res_setHeader ''Content-Type'' (Text ''video/mp4'')
                     (res_setHeader ''Content-Disposition'' (attachment (originalFileName s)) (res s)),
            streamListener := True, ffmpegCommand := Some Running, spawned := Suc (spawned s),
            engineListeners := True, piped := True, awaiting := None\<rparr>"
        by (simp add: compress_def)
      with c inv show ?thesis by (simp add: tracked_def)
    qed
  qed
next
  case (StreamError e)
  show ?thesis
  proof (cases "streamListener s")
    case False with assms StreamError show ?thesis by (simp add: compress_def)
  next
    case True
    with StreamError step have "on_stream_error env e s = Inr s'" by (simp add: compress_def)
    note f = on_stream_error_frame [OF this]
    from f(1,2,3,4,5,6,9,12) inv show ?thesis by (simp add: tracked_def)
  qed
next
  case (FfmpegStart c)
  with assms show ?thesis by (auto simp: compress_def on_start_def tracked_def split: if_splits)
next
  case (FfmpegProgress p)
  show ?thesis
  proof (cases "engineListeners s")
    case False with assms FfmpegProgress show ?thesis by (simp add: compress_def)
  next
    case True
    with FfmpegProgress step have "on_progress p s = Inr s'" by (simp add: compress_def)
    note f = on_progress_frame [OF this]
    from f(1,2,3,4,5,6,9,11) inv show ?thesis by (simp add: tracked_def)
  qed
next
  case (FfmpegError e err)
  show ?thesis
  proof (cases "engineListeners s")
    case False with assms FfmpegError show ?thesis by (simp add: compress_def)
  next
    case True
    with FfmpegError step have "on_error env e err s = Inr s'" by (simp add: compress_def)
    note f = on_error_frame [OF this]
    from f(1,2,3,4,5,6,9,12) inv show ?thesis by (simp add: tracked_def)
  qed
next
  case FfmpegEnd
  show ?thesis
  proof (cases "engineListeners s")
    case False with assms FfmpegEnd show ?thesis by (simp add: compress_def)
  next
    case True
    with FfmpegEnd step have "on_end env (process_exited s) = Inr s'" by (simp add: compress_def)
    note f = on_end_frame [OF this]
    from f(1,2,3,4,5,6,9,12) inv show ?thesis by (simp add: tracked_def)
  qed
next
  case (FfmpegOutput c)
  with assms show ?thesis by (auto simp: compress_def tracked_def split: if_splits)
next
  case FfmpegOutputEnd
  with assms show ?thesis by (auto simp: compress_def tracked_def split: if_splits)
qed

lemma tracked_run:
  assumes "tracked s" "run (compress env) s evs = Inr s'"
  shows "tracked s'"
  using assms
proof (induction evs arbitrary: s)
  case Nil then show ?case by simp
next
  case (Cons ev evs)
  from Cons.prems obtain s1 where 1: "compress env s ev = Inr s1" and 2: "run (compress env) s1 evs = Inr s'"
    by (auto split: sum.splits)
  from Cons.IH [OF tracked_step [OF Cons.prems(1) 1] 2] show ?case .
qed


subsection \<open>Requests that have returned, and requests waiting for the probe\<close>

lemma quiet_step:
  assumes "quiet s"
  shows "\<exists>s'. compress env s ev = Inr s' \<and> quiet s' \<and>
           statusCode (res s') = statusCode (res s) \<and> headersSent (res s') = headersSent (res s) \<and>
           body (res s') = body (res s) \<and> ended (res s') = ended (res s) \<and>
           spawned s' = spawned s \<and> kills s' = kills s \<and> ffmpegCommand s' = ffmpegCommand s \<and>
           upstream s' = upstream s \<and> videoUrl s' = videoUrl s"
  using assms
  by (cases ev) (simp_all add: quiet_def compress_def on_close_def log_def socket_closed_def Let_def)

lemma quiet_run:
  assumes "quiet s"
  shows "\<exists>s'. run (compress env) s evs = Inr s' \<and> quiet s' \<and>
           statusCode (res s') = statusCode (res s) \<and> headersSent (res s') = headersSent (res s) \<and>
           body (res s') = body (res s) \<and> ended (res s') = ended (res s) \<and>
           spawned s' = spawned s \<and> kills s' = kills s \<and> ffmpegCommand s' = ffmpegCommand s \<and>
           upstream s' = upstream s \<and> videoUrl s' = videoUrl s"
  using assms
proof (induction evs arbitrary: s)
  case Nil then show ?case by simp
next
  case (Cons ev evs)
  from quiet_step [OF Cons.prems, of env ev] obtain s1 where
    1: "compress env s ev = Inr s1" and q: "quiet s1" and
    e: "statusCode (res s1) = statusCode (res s)" "headersSent (res s1) = headersSent (res s)"
       "body (res s1) = body (res s)" "ended (res s1) = ended (res s)"
       "spawned s1 = spawned s" "kills s1 = kills s"
       "ffmpegCommand s1 = ffmpegCommand s" "upstream s1 = upstream s" "videoUrl s1 = videoUrl s"
    by blast
  from Cons.IH [OF q] 1 e show ?case by simp
qed

lemma quiet_step_index:
  assumes "quiet s"
  shows "\<exists>s'. compress_index env s ev = Inr s' \<and> quiet s' \<and>
           statusCode (res s') = statusCode (res s) \<and> headersSent (res s') = headersSent (res s) \<and>
           body (res s') = body (res s) \<and> ended (res s') = ended (res s) \<and>
           spawned s' = spawned s \<and> kills s' = kills s \<and> ffmpegCommand s' = ffmpegCommand s \<and>
           upstream s' = upstream s \<and> videoUrl s' = videoUrl s"
  using assms by (cases ev) (simp_all add: quiet_def compress_index_def socket_closed_def)

lemma quiet_run_index:
  assumes "quiet s"
  shows "\<exists>s'. run (compress_index env) s evs = Inr s' \<and> quiet s' \<and>
           statusCode (res s') = statusCode (res s) \<and> headersSent (res s') = headersSent (res s) \<and>
           body (res s') = body (res s) \<and> ended (res s') = ended (res s) \<and>
           spawned s' = spawned s \<and> kills s' = kills s \<and> ffmpegCommand s' = ffmpegCommand s \<and>
           upstream s' = upstream s \<and> videoUrl s' = videoUrl s"
  using assms
proof (induction evs arbitrary: s)
  case Nil then show ?case by simp
next
  case (Cons ev evs)
  from quiet_step_index [OF Cons.prems, of env ev] obtain s1 where
    1: "compress_index env s ev = Inr s1" and q: "quiet s1" and
    e: "statusCode (res s1) = statusCode (res s)" "headersSent (res s1) = headersSent (res s)"
       "body (res s1) = body (res s)" "ended (res s1) = ended (res s)"
       "spawned s1 = spawned s" "kills s1 = kills s"
       "ffmpegCommand s1 = ffmpegCommand s" "upstream s1 = upstream s" "videoUrl s1 = videoUrl s"
    by blast
  from Cons.IH [OF q] 1 e show ?case by simp
qed

lemma probing_step:
  assumes "probing u gone s" "\<forall>r. ev \<noteq> HeadSettled r"
  shows "\<exists>s'. compress env s ev = Inr s' \<and> probing u (gone \<or> ev = ReqClose) s'"
  using assms
  by (cases ev)
     (simp_all add: probing_def compress_def on_close_def log_def socket_closed_def Let_def
        fresh_response_def)

lemma probing_step_index:
  assumes "probing u gone s" "\<forall>r. ev \<noteq> HeadSettled r"
  shows "\<exists>s'. compress_index env s ev = Inr s' \<and> probing u (gone \<or> ev = ReqClose) s'"
  using assms
  by (cases ev) (simp_all add: probing_def compress_index_def socket_closed_def fresh_response_def)

lemma probing_run:
  assumes "probing u gone s" "\<forall>ev\<in>set pre. \<forall>r. ev \<noteq> HeadSettled r"
  shows "\<exists>s'. run (compress env) s pre = Inr s' \<and> probing u (gone \<or> ReqClose \<in> set pre) s'"
  using assms
proof (induction pre arbitrary: s gone)
  case Nil then show ?case by simp
next
  case (Cons ev evs)
  from Cons.prems have "\<forall>r. ev \<noteq> HeadSettled r" by simp
  from probing_step [OF Cons.prems(1) this, of env] obtain s1 where
    1: "compress env s ev = Inr s1" and p: "probing u (gone \<or> ev = ReqClose) s1" by blast
  from Cons.prems have "\<forall>ev\<in>set evs. \<forall>r. ev \<noteq> HeadSettled r" by simp
  from Cons.IH [OF p this] obtain s' where
    2: "run (compress env) s1 evs = Inr s'" and
    q: "probing u ((gone \<or> ev = ReqClose) \<or> ReqClose \<in> set evs) s'" by blast
  have "((gone \<or> ev = ReqClose) \<or> ReqClose \<in> set evs) = (gone \<or> ReqClose \<in> set (ev # evs))"
    by auto
  with 1 2 q show ?case by simp
qed

lemma probing_run_index:
  assumes "probing u gone s" "\<forall>ev\<in>set pre. \<forall>r. ev \<noteq> HeadSettled r"
  shows "\<exists>s'. run (compress_index env) s pre = Inr s' \<and> probing u (gone \<or> ReqClose \<in> set pre) s'"
  using assms
proof (induction pre arbitrary: s gone)
  case Nil then show ?case by simp
next
  case (Cons ev evs)
  from Cons.prems have "\<forall>r. ev \<noteq> HeadSettled r" by simp
  from probing_step_index [OF Cons.prems(1) this, of env] obtain s1 where
    1: "compress_index env s ev = Inr s1" and p: "probing u (gone \<or> ev = ReqClose) s1" by blast
  from Cons.prems have "\<forall>ev\<in>set evs. \<forall>r. ev \<noteq> HeadSettled r" by simp
  from Cons.IH [OF p this] obtain s' where
    2: "run (compress_index env) s1 evs = Inr s'" and
    q: "probing u ((gone \<or> ev = ReqClose) \<or> ReqClose \<in> set evs) s'" by blast
  have "((gone \<or> ev = ReqClose) \<or> ReqClose \<in> set evs) = (gone \<or> ReqClose \<in> set (ev # evs))"
    by auto
  with 1 2 q show ?case by simp
qed

lemma probing_request:
  assumes "truthy url"
  shows "\<exists>u. url = Some u \<and> probing u False (compress_request url) \<and>
           probing u False (compress_request_index url)"
  using assms
  by (cases url)
     (simp_all add: truthy_def compress_request_def compress_request_index_def probing_def idle_def
        fresh_response_def)

lemma probe_failure_step:
  assumes p: "probing u gone s" and a: "axios r = Inl e"
  shows "\<exists>s'. compress env s (HeadSettled r) = Inr s' \<and> quiet s' \<and>
           statusCode (res s') = 500 \<and> headersSent (res s') = (\<not> gone) \<and>
           body (res s') = (if gone then [] else [''Failed to process video: '' @ message e]) \<and>
           ended (res s') \<and>
           spawned s' = 0 \<and> kills s' = 0 \<and> ffmpegCommand s' = None \<and> upstream s' = [(HEAD, u)] \<and>
           videoUrl s' = u"
proof -
  obtain s' where c: "catch_block env e s = Inr s'" using catch_block_returns by blast
  note f = catch_block_frame [OF c]
  from p a c have "compress env s (HeadSettled r) = Inr s'"
    by (simp add: compress_def probing_def after_head_failure)
  moreover from p f(1,3,4,5) have "quiet s'" by (simp add: quiet_def probing_def)
  moreover from p f(12) have "statusCode (res s') = 500 \<and> headersSent (res s') = (\<not> gone) \<and>
           body (res s') = (if gone then [] else [''Failed to process video: '' @ message e]) \<and>
           ended (res s')"
    by (simp add: probing_def fresh_response_def)
  moreover from p f(7,8,9,10,13) have "spawned s' = 0 \<and> kills s' = 0 \<and> ffmpegCommand s' = None \<and>
      upstream s' = [(HEAD, u)] \<and> videoUrl s' = u"
    by (simp add: probing_def)
  ultimately show ?thesis by blast
qed

lemma probe_failure_step_index:
  assumes p: "probing u gone s" and a: "axios r = Inl e"
  shows "\<exists>s'. compress_index env s (HeadSettled r) = Inr s' \<and> quiet s' \<and>
           statusCode (res s') = 500 \<and> headersSent (res s') = (\<not> gone) \<and>
           body (res s') = (if gone then [] else [''Failed to process video: '' @ message e]) \<and>
           ended (res s') \<and>
           spawned s' = 0 \<and> kills s' = 0 \<and> ffmpegCommand s' = None \<and> upstream s' = [(HEAD, u)] \<and>
           videoUrl s' = u"
  using assms
  by (simp add: compress_index_def probing_def after_head_index_def catch_block_index_def quiet_def
      fresh_response_def respond_500_unless_sent_def respond_def log_def)

subsection \<open>The example request\<close>

lemma example_file_name: "getFileName example_parser None example_url = Inr ''Movie.WebM''"
  by (simp add: header_name_def getFileName_def getFileName_body_def try_catch_def
      url_name_def basename_def extname_def toLowerCase_def lower_char_def videoExts_def
      example_parser_def example_url_def)

lemma example_axios: "axios (Responded 200 []) = Inr []"
  by (simp add: axios_def validateStatus_def)

lemma example_run:
  "run (compress example_env) (compress_request (Some example_url))
     [HeadSettled (Responded 200 []), GetSettled (Responded 200 [])] = Inr example_streaming"
proof -
  have u: "truthy (Some example_url)" by (simp add: truthy_def example_url_def)
  have 1: "compress example_env (compress_request (Some example_url)) (HeadSettled (Responded 200 []))
        = Inr (idle\<lparr>videoUrl := example_url, closeListener := True, isClientConnected := True,
                upstream := [(HEAD, example_url), (GET, example_url)], awaiting := Some StreamOpen,
                originalFileName := ''Movie.WebM''\<rparr>)"
    by (simp add: compress_def compress_request_def u after_head_def example_axios example_env_def
        example_file_name idle_def)
  have 2: "compress example_env (idle\<lparr>videoUrl := example_url, closeListener := True, isClientConnected := True,
                upstream := [(HEAD, example_url), (GET, example_url)], awaiting := Some StreamOpen,
                originalFileName := ''Movie.WebM''\<rparr>) (GetSettled (Responded 200 []))
        = Inr example_streaming"
    by (simp add: compress_def after_get_def example_axios example_env_def Let_def idle_def
        example_streaming_def res_setHeader_def fresh_response_def)
  show ?thesis by (simp add: 1 2)
qed

lemma example_run_index:
  "run (compress_index example_env) (compress_request_index (Some example_url))
     [HeadSettled (Responded 200 []), GetSettled (Responded 200 [])]
   = Inr (example_streaming\<lparr>closeListener := False\<rparr>)"
proof -
  have u: "truthy (Some example_url)" by (simp add: truthy_def example_url_def)
  have 1: "compress_index example_env (compress_request_index (Some example_url)) (HeadSettled (Responded 200 []))
        = Inr (idle\<lparr>videoUrl := example_url,
                upstream := [(HEAD, example_url), (GET, example_url)], awaiting := Some StreamOpen,
                originalFileName := ''Movie.WebM''\<rparr>)"
    by (simp add: compress_index_def compress_request_index_def u after_head_index_def example_axios example_env_def
        example_file_name idle_def)
  have 2: "compress_index example_env (idle\<lparr>videoUrl := example_url,
                upstream := [(HEAD, example_url), (GET, example_url)], awaiting := Some StreamOpen,
                originalFileName := ''Movie.WebM''\<rparr>) (GetSettled (Responded 200 []))
        = Inr (example_streaming\<lparr>closeListener := False\<rparr>)"
    by (simp add: compress_index_def after_get_index_def example_axios example_env_def Let_def idle_def
        example_streaming_def res_setHeader_def fresh_response_def size_headers_def truthy_def)
  show ?thesis by (simp add: 1 2)
qed

lemma example_engine_error:
  "compress example_env example_streaming (FfmpegError (Error ''ffmpeg exited with code 1'') None)
   = Inr (example_streaming
       \<lparr>ffmpegCommand := Some Exited,
        res := \<lparr>statusCode = 500,
                headers = [(''Content-Disposition'', attachment ''Movie.WebM''),
                           (''Content-Type'', Text ''video/mp4'')],
                headersSent = True, body = [''Compression failed''], ended = True,
                destroyed = False\<rparr>,
        kills := 1,
        console := [LogError ''FFmpeg error: ffmpeg exited with code 1'']\<rparr>)"
  by (simp add: compress_def on_error_def cleanup_eq example_streaming_def example_env_def
      log_stderr_def truthy_def log_def respond_500_unless_sent_def respond_def res_send_def
      res_status_def)

lemma example_run_sent:
  "run (compress example_env) (compress_request (Some example_url))
     [HeadSettled (Responded 200 []), GetSettled (Responded 200 []), FfmpegOutput ''chunk'']
   = Inr (example_streaming\<lparr>res := pipe_write ''chunk'' (res example_streaming)\<rparr>)"
proof -
  have "run (compress example_env) (compress_request (Some example_url))
        ([HeadSettled (Responded 200 []), GetSettled (Responded 200 [])] @ [FfmpegOutput ''chunk''])
     = compress example_env example_streaming (FfmpegOutput ''chunk'')"
    unfolding run_append example_run by (simp split: sum.splits)
  then show ?thesis by (simp add: compress_def example_streaming_def)
qed

lemma example_run_gone:
  "run (compress example_env) (compress_request (Some example_url))
     [HeadSettled (Responded 200 []), GetSettled (Responded 200 []), ReqClose]
   = Inr (on_close (example_streaming\<lparr>res := socket_closed (res example_streaming)\<rparr>))"
proof -
  have "run (compress example_env) (compress_request (Some example_url))
        ([HeadSettled (Responded 200 []), GetSettled (Responded 200 [])] @ [ReqClose])
     = compress example_env example_streaming ReqClose"
    unfolding run_append example_run by (simp split: sum.splits)
  then show ?thesis by (simp add: compress_def example_streaming_def Let_def)
qed


subsection \<open>The claims about the handlers\<close>

text \<open>
  C1, as the code has it. The claim is that on every termination path the \<^verbatim>\<open>kill\<close> action
  is invoked on the transcoding invocation before the handler is done, and that at most
  one invocation is alive per request. In the disconnect-aware handler: whatever events a
  request has received, at most one invocation has been created; and when the next event
  takes the request down a termination path, the code that handles it returns, \<^verbatim>\<open>cleanup\<close>
  has called \<^verbatim>\<open>kill\<close> once if an invocation had been created (after which the process
  has exited, unless that call threw), and nothing is killed when no invocation exists.
\<close>

theorem kill_on_every_termination_path:
  assumes reach: "run (compress env) (compress_request url) evs = Inr s"
    and path: "termination_path env s ev"
  shows "\<exists>s'. compress env s ev = Inr s' \<and> spawned s \<le> 1 \<and> spawned s' \<le> 1 \<and>
           (0 < spawned s' \<longrightarrow> kills s' = Suc (kills s)) \<and>
           (0 < spawned s' \<and> kill_outcome env (kills s) = None \<longrightarrow> ffmpegCommand s' = Some Exited) \<and>
           (spawned s' = 0 \<longrightarrow> kills s' = 0 \<and> ffmpegCommand s' = None)"
proof -
  obtain s' where step: "compress env s ev = Inr s'" using compress_returns by blast
  have inv: "one_engine s" by (rule one_engine_run [OF one_engine_request reach])
  have inv': "one_engine s'" by (rule one_engine_step [OF inv step])
  have k: "(0 < spawned s' \<longrightarrow> kills s' = Suc (kills s)) \<and>
           (0 < spawned s' \<and> kill_outcome env (kills s) = None \<longrightarrow> ffmpegCommand s' = Some Exited)"
  proof (cases ev)
    case (HeadSettled r)
    with path obtain e where "awaiting s = Some HeadProbe" "axios r = Inl e"
      by (cases "axios r") (auto simp: termination_path_def)
    with HeadSettled step have "catch_block env e s = Inr s'"
      by (simp add: compress_def after_head_failure)
    note f = catch_block_frame [OF this]
    from f(7,9,10,11) inv show ?thesis by (auto simp: one_engine_def)
  next
    case (GetSettled r)
    with path have a: "awaiting s = Some StreamOpen" and f: "isl (axios r) \<or> sync_fault env \<noteq> NoFault"
      by (auto simp: termination_path_def)
    from a inv have z: "spawned s = 0" "ffmpegCommand s = None" by (auto simp: one_engine_def)
    from after_get_failure [OF f, of s] obtain error s0 where
      g: "after_get env r s = catch_block env error s0" and
      b: "kills s0 = kills s"
         "(ffmpegCommand s0 = ffmpegCommand s \<and> spawned s0 = spawned s) \<or>
          (ffmpegCommand s0 = Some Running \<and> spawned s0 = Suc (spawned s))"
      by blast
    from g a GetSettled step have "catch_block env error s0 = Inr s'" by (simp add: compress_def)
    note f = catch_block_frame [OF this]
    from f(7,9,10,11) b z show ?thesis by auto
  next
    case (StreamError e)
    with path step have "on_stream_error env e s = Inr s'"
      by (simp add: compress_def termination_path_def)
    note f = on_stream_error_frame [OF this]
    from f(7,9,10,11) inv show ?thesis by (auto simp: one_engine_def)
  next
    case (FfmpegError e err)
    with path step have "on_error env e err s = Inr s'"
      by (simp add: compress_def termination_path_def)
    note f = on_error_frame [OF this]
    from f(7,9,10,11) inv show ?thesis by (auto simp: one_engine_def)
  next
    case FfmpegEnd
    with path step have "on_end env (process_exited s) = Inr s'"
      by (simp add: compress_def termination_path_def)
    note f = on_end_frame [OF this]
    from f(7,9,10,11) inv show ?thesis by (auto simp: one_engine_def)
  qed (use path in \<open>simp_all add: termination_path_def\<close>)
  from step inv inv' k show ?thesis by (auto simp: one_engine_def)
qed

theorem kill_on_every_termination_path_witness:
  "run (compress example_env) (compress_request (Some example_url))
     [HeadSettled (Responded 200 []), GetSettled (Responded 200 [])] = Inr example_streaming \<and>
   termination_path example_env example_streaming (FfmpegError (Error ''ffmpeg exited with code 1'') None) \<and>
   (\<exists>s'. compress example_env example_streaming (FfmpegError (Error ''ffmpeg exited with code 1'') None) = Inr s' \<and>
      spawned s' = 1 \<and> kills s' = 1 \<and> ffmpegCommand s' = Some Exited)"
proof -
  have p: "termination_path example_env example_streaming (FfmpegError (Error ''ffmpeg exited with code 1'') None)"
    by (simp add: termination_path_def example_streaming_def)
  from kill_on_every_termination_path [OF example_run p] obtain s' where
    s': "compress example_env example_streaming (FfmpegError (Error ''ffmpeg exited with code 1'') None) = Inr s'"
    by blast
  have "spawned s' = 1 \<and> kills s' = 1 \<and> ffmpegCommand s' = Some Exited"
    using s' unfolding example_engine_error by (auto simp: example_streaming_def)
  with example_run p s' show ?thesis by blast
qed

text \<open>
  The claim of C1 as stated fails in the earlier handler, which has no \<^verbatim>\<open>cleanup\<close>: after
  an error of the input stream the invocation exists and \<^verbatim>\<open>kill\<close> has not been called.
\<close>

theorem index_never_kills:
  "map_sum id spawned
     (run (compress_index example_env) (compress_request_index (Some example_url))
        [HeadSettled (Responded 200 []), GetSettled (Responded 200 []),
         StreamError (Error ''socket hang up'')]) = Inr 1 \<and>
   map_sum id kills
     (run (compress_index example_env) (compress_request_index (Some example_url))
        [HeadSettled (Responded 200 []), GetSettled (Responded 200 []),
         StreamError (Error ''socket hang up'')]) = Inr 0"
proof -
  have "run (compress_index example_env) (compress_request_index (Some example_url))
        ([HeadSettled (Responded 200 []), GetSettled (Responded 200 [])] @
         [StreamError (Error ''socket hang up'')])
     = compress_index example_env (example_streaming\<lparr>closeListener := False\<rparr>)
         (StreamError (Error ''socket hang up''))"
    unfolding run_append example_run_index by (simp split: sum.splits)
  then show ?thesis
    by (simp add: compress_index_def on_stream_error_index_def example_streaming_def)
qed

text \<open>
  C5: a request whose \<^verbatim>\<open>url\<close> parameter is missing (undefined or empty) is answered with
  status 400; whatever events follow, no upstream request is issued and no transcoding
  invocation is created. This holds in both variants of the handler.
\<close>

theorem missing_url_400:
  assumes "\<not> truthy url"
  shows "(\<exists>s. run (compress env) (compress_request url) evs = Inr s \<and>
              statusCode (res s) = 400 \<and> body (res s) = [''Missing video URL''] \<and>
              upstream s = [] \<and> spawned s = 0 \<and> ffmpegCommand s = None) \<and>
         (\<exists>s. run (compress_index env) (compress_request_index url) evs = Inr s \<and>
              statusCode (res s) = 400 \<and> body (res s) = [''Missing video URL''] \<and>
              upstream s = [] \<and> spawned s = 0 \<and> ffmpegCommand s = None)"
proof -
  from assms have r: "compress_request url = respond 400 ''Missing video URL'' idle"
     "compress_request_index url = respond 400 ''Missing video URL'' idle"
    by (simp_all add: compress_request_def compress_request_index_def)
  have q: "quiet (respond 400 ''Missing video URL'' idle)"
    by (simp add: quiet_def respond_def idle_def)
  have v: "statusCode (res (respond 400 ''Missing video URL'' idle)) = 400"
    "body (res (respond 400 ''Missing video URL'' idle)) = [''Missing video URL'']"
    "upstream (respond 400 ''Missing video URL'' idle) = []"
    "spawned (respond 400 ''Missing video URL'' idle) = 0"
    "ffmpegCommand (respond 400 ''Missing video URL'' idle) = None"
    by (simp_all add: respond_def idle_def fresh_response_def)
  from quiet_run [OF q, of env evs] quiet_run_index [OF q, of env evs] show ?thesis
    unfolding r using v by auto
qed

theorem missing_url_400_witness:
  "\<not> truthy (Some []) \<and>
   run (compress example_env) (compress_request (Some []))
     [ReqClose, HeadSettled (Responded 200 []), FfmpegEnd]
     = Inr (idle\<lparr>res := socket_closed (res_send ''Missing video URL'' (res_status 400 fresh_response))\<rparr>) \<and>
   run (compress_index example_env) (compress_request_index (Some []))
     [ReqClose, HeadSettled (Responded 200 []), FfmpegEnd]
     = Inr (idle\<lparr>res := socket_closed (res_send ''Missing video URL'' (res_status 400 fresh_response))\<rparr>) \<and>
   statusCode (socket_closed (res_send ''Missing video URL'' (res_status 400 fresh_response))) = 400 \<and>
   body (socket_closed (res_send ''Missing video URL'' (res_status 400 fresh_response)))
     = [''Missing video URL''] \<and>
   upstream (idle\<lparr>res := socket_closed (res_send ''Missing video URL'' (res_status 400 fresh_response))\<rparr>) = []"
  using missing_url_400 [of "Some []" example_env "[ReqClose, HeadSettled (Responded 200 []), FfmpegEnd]"]
  by (simp add: truthy_def compress_request_def compress_request_index_def compress_def
      compress_index_def respond_def idle_def res_send_def res_status_def fresh_response_def
      socket_closed_def Let_def)

text \<open>
  C4: when the probe of a request fails, whatever events come before the probe settles
  and after it: nothing has been sent before the failure (the status code is still the
  default, no headers and no body have gone out); the status of the response is then 500
  and stays so; the error text is sent as its body, unless the client has gone before the
  failure, in which case nothing is put out; no transcoding invocation is ever created, and
  the probe is the only upstream request. This holds in both variants of the handler.
\<close>

theorem probe_failure_500:
  assumes url: "truthy url" and fails: "probe_fails r"
    and pre: "\<forall>ev\<in>set pre. \<forall>r'. ev \<noteq> HeadSettled r'"
  shows "(\<exists>e s0 s. axios r = Inl e \<and>
            run (compress env) (compress_request url) pre = Inr s0 \<and>
            statusCode (res s0) = 200 \<and> \<not> headersSent (res s0) \<and> body (res s0) = [] \<and>
            run (compress env) (compress_request url) (pre @ HeadSettled r # post) = Inr s \<and>
            statusCode (res s) = 500 \<and>
            headersSent (res s) = (ReqClose \<notin> set pre) \<and>
            body (res s) = (if ReqClose \<in> set pre then []
                            else [''Failed to process video: '' @ message e]) \<and>
            spawned s = 0 \<and> ffmpegCommand s = None \<and> upstream s = [(HEAD, videoUrl s)]) \<and>
         (\<exists>e s0 s. axios r = Inl e \<and>
            run (compress_index env) (compress_request_index url) pre = Inr s0 \<and>
            statusCode (res s0) = 200 \<and> \<not> headersSent (res s0) \<and> body (res s0) = [] \<and>
            run (compress_index env) (compress_request_index url) (pre @ HeadSettled r # post) = Inr s \<and>
            statusCode (res s) = 500 \<and>
            headersSent (res s) = (ReqClose \<notin> set pre) \<and>
            body (res s) = (if ReqClose \<in> set pre then []
                            else [''Failed to process video: '' @ message e]) \<and>
            spawned s = 0 \<and> ffmpegCommand s = None \<and> upstream s = [(HEAD, videoUrl s)])"
proof -
  from fails obtain e where e: "axios r = Inl e"
    by (cases "axios r") (auto simp: probe_fails_axios)
  from probing_request [OF url] obtain u where
    p: "probing u False (compress_request url)" and pi: "probing u False (compress_request_index url)"
    by blast
  have "\<exists>s0 s. run (compress env) (compress_request url) pre = Inr s0 \<and>
            statusCode (res s0) = 200 \<and> \<not> headersSent (res s0) \<and> body (res s0) = [] \<and>
            run (compress env) (compress_request url) (pre @ HeadSettled r # post) = Inr s \<and>
            statusCode (res s) = 500 \<and>
            headersSent (res s) = (ReqClose \<notin> set pre) \<and>
            body (res s) = (if ReqClose \<in> set pre then []
                            else [''Failed to process video: '' @ message e]) \<and>
            spawned s = 0 \<and> ffmpegCommand s = None \<and> upstream s = [(HEAD, videoUrl s)]"
  proof -
    from probing_run [OF p pre, of env] obtain s0 where
      0: "run (compress env) (compress_request url) pre = Inr s0" and
      p0: "probing u (ReqClose \<in> set pre) s0" by auto
    from probe_failure_step [OF p0 e, of env] obtain s1 where
      1: "compress env s0 (HeadSettled r) = Inr s1" and q: "quiet s1" and
      v: "statusCode (res s1) = 500" "headersSent (res s1) = (ReqClose \<notin> set pre)"
         "body (res s1) = (if ReqClose \<in> set pre then []
                           else [''Failed to process video: '' @ message e])"
         "spawned s1 = 0" "ffmpegCommand s1 = None" "upstream s1 = [(HEAD, u)]" and
      u1: "videoUrl s1 = u"
      by blast
    from quiet_run [OF q, of env post] obtain s where
      2: "run (compress env) s1 post = Inr s" and
      w: "statusCode (res s) = statusCode (res s1)" "headersSent (res s) = headersSent (res s1)"
         "body (res s) = body (res s1)"
         "spawned s = spawned s1" "ffmpegCommand s = ffmpegCommand s1"
         "upstream s = upstream s1" "videoUrl s = videoUrl s1"
      by blast
    have 3: "run (compress env) (compress_request url) (pre @ HeadSettled r # post) = Inr s"
      by (simp add: run_append 0 1 2)
    from p0 have f: "statusCode (res s0) = 200" "\<not> headersSent (res s0)" "body (res s0) = []"
      by (simp_all add: probing_def fresh_response_def)
    from 0 3 f v w u1 show ?thesis by simp
  qed
  moreover
  have "\<exists>s0 s. run (compress_index env) (compress_request_index url) pre = Inr s0 \<and>
            statusCode (res s0) = 200 \<and> \<not> headersSent (res s0) \<and> body (res s0) = [] \<and>
            run (compress_index env) (compress_request_index url) (pre @ HeadSettled r # post) = Inr s \<and>
            statusCode (res s) = 500 \<and>
            headersSent (res s) = (ReqClose \<notin> set pre) \<and>
            body (res s) = (if ReqClose \<in> set pre then []
                            else [''Failed to process video: '' @ message e]) \<and>
            spawned s = 0 \<and> ffmpegCommand s = None \<and> upstream s = [(HEAD, videoUrl s)]"
  proof -
    from probing_run_index [OF pi pre, of env] obtain s0 where
      0: "run (compress_index env) (compress_request_index url) pre = Inr s0" and
      p0: "probing u (ReqClose \<in> set pre) s0" by auto
    from probe_failure_step_index [OF p0 e, of env] obtain s1 where
      1: "compress_index env s0 (HeadSettled r) = Inr s1" and q: "quiet s1" and
      v: "statusCode (res s1) = 500" "headersSent (res s1) = (ReqClose \<notin> set pre)"
         "body (res s1) = (if ReqClose \<in> set pre then []
                           else [''Failed to process video: '' @ message e])"
         "spawned s1 = 0" "ffmpegCommand s1 = None" "upstream s1 = [(HEAD, u)]" and
      u1: "videoUrl s1 = u"
      by blast
    from quiet_run_index [OF q, of env post] obtain s where
      2: "run (compress_index env) s1 post = Inr s" and
      w: "statusCode (res s) = statusCode (res s1)" "headersSent (res s) = headersSent (res s1)"
         "body (res s) = body (res s1)"
         "spawned s = spawned s1" "ffmpegCommand s = ffmpegCommand s1"
         "upstream s = upstream s1" "videoUrl s = videoUrl s1"
      by blast
    have 3: "run (compress_index env) (compress_request_index url) (pre @ HeadSettled r # post) = Inr s"
      by (simp add: run_append 0 1 2)
    from p0 have f: "statusCode (res s0) = 200" "\<not> headersSent (res s0)" "body (res s0) = []"
      by (simp_all add: probing_def fresh_response_def)
    from 0 3 f v w u1 show ?thesis by simp
  qed
  ultimately show ?thesis using e by blast
qed

theorem probe_failure_500_witness:
  "truthy (Some example_url) \<and> probe_fails (Responded 503 []) \<and>
   axios (Responded 503 []) = Inl (Error ''Request failed with status code 503'') \<and>
   map_sum id statusCode (map_sum id res
     (run (compress example_env) (compress_request (Some example_url))
        ([] @ HeadSettled (Responded 503 []) # [GetSettled (Responded 200 []), FfmpegStart ''ffmpeg''])))
     = Inr 500 \<and>
   map_sum id body (map_sum id res
     (run (compress example_env) (compress_request (Some example_url))
        ([] @ HeadSettled (Responded 503 []) # [GetSettled (Responded 200 []), FfmpegStart ''ffmpeg''])))
     = Inr [''Failed to process video: Request failed with status code 503''] \<and>
   map_sum id spawned
     (run (compress example_env) (compress_request (Some example_url))
        ([] @ HeadSettled (Responded 503 []) # [GetSettled (Responded 200 []), FfmpegStart ''ffmpeg'']))
     = Inr 0 \<and>
   map_sum id statusCode (map_sum id res
     (run (compress example_env) (compress_request (Some example_url))
        ([ReqClose] @ HeadSettled (Responded 503 []) # [GetSettled (Responded 200 [])])))
     = Inr 500 \<and>
   map_sum id headersSent (map_sum id res
     (run (compress example_env) (compress_request (Some example_url))
        ([ReqClose] @ HeadSettled (Responded 503 []) # [GetSettled (Responded 200 [])])))
     = Inr False \<and>
   map_sum id statusCode (map_sum id res
     (run (compress_index example_env) (compress_request_index (Some example_url))
        ([] @ HeadSettled (Responded 503 []) # [GetSettled (Responded 200 []), FfmpegStart ''ffmpeg''])))
     = Inr 500 \<and>
   map_sum id spawned
     (run (compress_index example_env) (compress_request_index (Some example_url))
        ([] @ HeadSettled (Responded 503 []) # [GetSettled (Responded 200 []), FfmpegStart ''ffmpeg'']))
     = Inr 0"
proof -
  have u: "truthy (Some example_url)" by (simp add: truthy_def example_url_def)
  have f: "probe_fails (Responded 503 [])" by (simp add: probe_fails_def)
  have p0: "\<forall>ev\<in>set []. \<forall>r'. ev \<noteq> HeadSettled r'" by simp
  have p1: "\<forall>ev\<in>set [ReqClose]. \<forall>r'. ev \<noteq> HeadSettled r'" by simp
  have a: "axios (Responded 503 []) = Inl (Error ''Request failed with status code 503'')"
    by (simp add: axios_def validateStatus_def decimal.simps)
  from probe_failure_500 [OF u f p0, of example_env "[GetSettled (Responded 200 []), FfmpegStart ''ffmpeg'']"]
    probe_failure_500 [OF u f p1, of example_env "[GetSettled (Responded 200 [])]"]
  show ?thesis using u f a by auto
qed

text \<open>
  C3, as the code has it. When the engine emits \<^verbatim>\<open>error\<close> in a request of the
  disconnect-aware handler: if the headers were already sent, the response is left as it
  is, so its status code is not altered and the listener does not end it; if they were
  not sent and the client is connected, the status becomes 500 and the headers and the
  text \<^verbatim>\<open>Compression failed\<close> are sent, which finishes the response; if the client had
  disconnected, the response is left as it is and the console gets the line of an expected
  termination, followed by nothing but the report of \<^verbatim>\<open>cleanup\<close> in case its \<^verbatim>\<open>kill\<close>
  throws. In every case \<^verbatim>\<open>cleanup\<close> calls \<^verbatim>\<open>kill\<close> on the engine.
\<close>

theorem engine_error_response:
  assumes reach: "run (compress env) (compress_request url) evs = Inr s"
    and listening: "engineListeners s"
  shows "\<exists>s'. compress env s (FfmpegError err stderr) = Inr s' \<and>
     (headersSent (res s) \<longrightarrow> res s' = res s) \<and>
     (\<not> headersSent (res s) \<and> isClientConnected s \<longrightarrow>
        statusCode (res s') = 500 \<and> headersSent (res s') \<and>
        body (res s') = body (res s) @ [''Compression failed''] \<and> ended (res s')) \<and>
     (\<not> isClientConnected s \<longrightarrow>
        res s' = res s \<and>
        console s' = console s @
          Log ''FFmpeg process terminated due to client disconnect'' #
          (case kill_outcome env (kills s) of
             None \<Rightarrow> []
           | Some e \<Rightarrow> [LogErrorObject ''Error killing FFmpeg process:'' e])) \<and>
     kills s' = Suc (kills s) \<and>
     (kill_outcome env (kills s) = None \<longrightarrow> ffmpegCommand s' = Some Exited)"
proof -
  have t: "tracked s" by (rule tracked_run [OF tracked_request reach])
  from t listening have c: "ffmpegCommand s \<noteq> None" and
    live: "isClientConnected s = (\<not> destroyed (res s))"
    by (simp_all add: tracked_def)
  obtain s' where e: "on_error env err stderr s = Inr s'"
    by (auto simp: on_error_def cleanup_eq)
  note f = on_error_frame [OF e]
  from listening e have step: "compress env s (FfmpegError err stderr) = Inr s'"
    by (simp add: compress_def)
  from f(12) have r1: "headersSent (res s) \<longrightarrow> res s' = res s"
    by simp
  from f(12) live have r2: "\<not> headersSent (res s) \<and> isClientConnected s \<longrightarrow>
        statusCode (res s') = 500 \<and> headersSent (res s') \<and>
        body (res s') = body (res s) @ [''Compression failed''] \<and> ended (res s')"
    by simp
  from c have kr: "kill_report env s =
          (case kill_outcome env (kills s) of
             None \<Rightarrow> []
           | Some e \<Rightarrow> [LogErrorObject ''Error killing FFmpeg process:'' e])"
    by (auto simp: kill_report_def)
  from f(12) f(13) have r3: "\<not> isClientConnected s \<longrightarrow>
        res s' = res s \<and>
        console s' = console s @
          Log ''FFmpeg process terminated due to client disconnect'' #
          (case kill_outcome env (kills s) of
             None \<Rightarrow> []
           | Some e \<Rightarrow> [LogErrorObject ''Error killing FFmpeg process:'' e])"
    unfolding kr [symmetric] by simp
  from f(10) c have k1: "kills s' = Suc (kills s)"
    by simp
  from f(11) c have k2: "kill_outcome env (kills s) = None \<longrightarrow> ffmpegCommand s' = Some Exited"
    by simp
  show ?thesis
    by (intro exI [of _ s'] conjI) (rule step r1 r2 r3 k1 k2)+
qed

lemma example_sent_error:
  "compress example_env (example_streaming\<lparr>res := pipe_write ''chunk'' (res example_streaming)\<rparr>)
     (FfmpegError (Error ''ffmpeg exited with code 1'') None)
   = Inr (example_streaming
       \<lparr>ffmpegCommand := Some Exited,
        res := pipe_write ''chunk'' (res example_streaming),
        kills := 1,
        console := [LogError ''FFmpeg error: ffmpeg exited with code 1'']\<rparr>)"
  by (simp add: compress_def on_error_def cleanup_eq example_streaming_def example_env_def
      log_stderr_def truthy_def log_def respond_500_unless_sent_def pipe_write_def)

lemma example_gone_error:
  "compress example_env (on_close (example_streaming\<lparr>res := socket_closed (res example_streaming)\<rparr>))
     (FfmpegError (Error ''Output stream closed'') None)
   = Inr (example_streaming
       \<lparr>isClientConnected := False, ffmpegCommand := Some Exited,
        res := socket_closed (res example_streaming), kills := 1,
        console := [Log ''Client disconnected'',
                    Log ''FFmpeg process terminated due to client disconnect'']\<rparr>)"
  by (simp add: compress_def on_error_def cleanup_eq example_streaming_def example_env_def
      on_close_def log_def)

theorem engine_error_response_witness:
  "run (compress example_env) (compress_request (Some example_url))
     [HeadSettled (Responded 200 []), GetSettled (Responded 200 [])] = Inr example_streaming \<and>
   engineListeners example_streaming \<and>
   \<not> headersSent (res example_streaming) \<and> isClientConnected example_streaming \<and>
   map_sum id statusCode (map_sum id res
     (compress example_env example_streaming (FfmpegError (Error ''ffmpeg exited with code 1'') None)))
     = Inr 500 \<and>
   map_sum id body (map_sum id res
     (compress example_env example_streaming (FfmpegError (Error ''ffmpeg exited with code 1'') None)))
     = Inr [''Compression failed''] \<and>
   headersSent (pipe_write ''chunk'' (res example_streaming)) \<and>
   statusCode (pipe_write ''chunk'' (res example_streaming)) = 200 \<and>
   \<not> ended (pipe_write ''chunk'' (res example_streaming)) \<and>
   map_sum id res
     (compress example_env (example_streaming\<lparr>res := pipe_write ''chunk'' (res example_streaming)\<rparr>)
        (FfmpegError (Error ''ffmpeg exited with code 1'') None))
     = Inr (pipe_write ''chunk'' (res example_streaming)) \<and>
   \<not> isClientConnected (on_close (example_streaming\<lparr>res := socket_closed (res example_streaming)\<rparr>)) \<and>
   map_sum id res
     (compress example_env (on_close (example_streaming\<lparr>res := socket_closed (res example_streaming)\<rparr>))
        (FfmpegError (Error ''Output stream closed'') None))
     = Inr (socket_closed (res example_streaming)) \<and>
   map_sum id console
     (compress example_env (on_close (example_streaming\<lparr>res := socket_closed (res example_streaming)\<rparr>))
        (FfmpegError (Error ''Output stream closed'') None))
     = Inr [Log ''Client disconnected'', Log ''FFmpeg process terminated due to client disconnect'']"
proof -
  have l: "engineListeners example_streaming"
    "engineListeners (example_streaming\<lparr>res := pipe_write ''chunk'' (res example_streaming)\<rparr>)"
    "engineListeners (on_close (example_streaming\<lparr>res := socket_closed (res example_streaming)\<rparr>))"
    by (simp_all add: example_streaming_def on_close_def log_def)
  from engine_error_response [OF example_run l(1), of "Error ''ffmpeg exited with code 1''" None]
    engine_error_response [OF example_run_sent l(2), of "Error ''ffmpeg exited with code 1''" None]
    engine_error_response [OF example_run_gone l(3), of "Error ''Output stream closed''" None]
  show ?thesis
    unfolding example_engine_error example_sent_error example_gone_error example_run
    by (simp add: example_streaming_def on_close_def log_def pipe_write_def socket_closed_def)
qed

text \<open>
  The claim of C3 as stated fails in the earlier handler, which does not track the
  client's connection: the client disconnects, the engine reports the error that follows,
  and the handler treats it as a fault. It logs the error object and \<^verbatim>\<open>stderr\<close> with
  \<^verbatim>\<open>console.error\<close> and calls \<^verbatim>\<open>res.status(500).send\<close>, which sets the status code to 500
  (nothing is put out, since the client is gone).
\<close>

theorem index_error_not_suppressed:
  "map_sum id console
     (run (compress_index example_env) (compress_request_index (Some example_url))
        [HeadSettled (Responded 200 []), GetSettled (Responded 200 []), ReqClose,
         FfmpegError (Error ''Output stream closed'') None])
   = Inr [LogErrorObject ''FFmpeg error:'' (Error ''Output stream closed''),
          LogError ''FFmpeg stderr: undefined''] \<and>
   map_sum id res
     (run (compress_index example_env) (compress_request_index (Some example_url))
        [HeadSettled (Responded 200 []), GetSettled (Responded 200 []), ReqClose,
         FfmpegError (Error ''Output stream closed'') None])
   = Inr \<lparr>statusCode = 500,
          headers = [(''Content-Disposition'', attachment ''Movie.WebM''),
                     (''Content-Type'', Text ''video/mp4'')],
          headersSent = False, body = [], ended = True, destroyed = True\<rparr>"
proof -
  have "run (compress_index example_env) (compress_request_index (Some example_url))
        ([HeadSettled (Responded 200 []), GetSettled (Responded 200 [])] @
         [ReqClose, FfmpegError (Error ''Output stream closed'') None])
     = run (compress_index example_env) (example_streaming\<lparr>closeListener := False\<rparr>)
         [ReqClose, FfmpegError (Error ''Output stream closed'') None]"
    unfolding run_append example_run_index by simp
  then show ?thesis
    by (simp add: compress_index_def on_error_index_def example_streaming_def log_def
        respond_500_unless_sent_def respond_def res_send_def res_status_def socket_closed_def)
qed

text \<open>
  C6, as the code has it. \<^verbatim>\<open>cleanup\<close> never throws, whatever \<^verbatim>\<open>kill\<close> does, and it never
  touches the response. Without a command it does nothing at all. Invoked when the engine
  has already exited, which is the case after natural completion and after a first
  invocation whose \<^verbatim>\<open>kill\<close> returned, it leaves the engine exited and changes nothing
  else but this: \<^verbatim>\<open>kill\<close> has been called once more, and when that call throws, the
  console has one more error line, which reports it.
\<close>

theorem cleanup_repeated:
  "(\<exists>s1. cleanup env s = Inr s1 \<and> res s1 = res s) \<and>
   (ffmpegCommand s = None \<longrightarrow> cleanup env s = Inr s) \<and>
   (ffmpegCommand s = Some Exited \<longrightarrow>
      cleanup env s =
        Inr (s\<lparr>kills := Suc (kills s),
               console := console s @
                 (case kill_outcome env (kills s) of
                    None \<Rightarrow> []
                  | Some e \<Rightarrow> [LogErrorObject ''Error killing FFmpeg process:'' e])\<rparr>)) \<and>
   (\<forall>s1. ffmpegCommand s \<noteq> None \<and> kill_outcome env (kills s) = None \<and> cleanup env s = Inr s1 \<longrightarrow>
      ffmpegCommand s1 = Some Exited \<and> kills s1 = Suc (kills s) \<and> console s1 = console s \<and>
      cleanup env s1 =
        Inr (s1\<lparr>kills := Suc (kills s1),
                console := console s1 @
                  (case kill_outcome env (kills s1) of
                     None \<Rightarrow> []
                   | Some e \<Rightarrow> [LogErrorObject ''Error killing FFmpeg process:'' e])\<rparr>))"
proof -
  have exited: "cleanup env t =
        Inr (t\<lparr>kills := Suc (kills t),
               console := console t @
                 (case kill_outcome env (kills t) of
                    None \<Rightarrow> []
                  | Some e \<Rightarrow> [LogErrorObject ''Error killing FFmpeg process:'' e])\<rparr>)"
    if "ffmpegCommand t = Some Exited" for t
  proof (cases "kill_outcome env (kills t)")
    case None
    have "t\<lparr>ffmpegCommand := Some Exited, kills := Suc (kills t)\<rparr>
          = t\<lparr>kills := Suc (kills t), console := console t @ []\<rparr>"
      using that by (cases t) simp
    with None that show ?thesis by (simp add: cleanup_eq)
  next
    case (Some e)
    with that show ?thesis by (simp add: cleanup_eq log_def)
  qed
  obtain s1 where 1: "cleanup env s = Inr s1" using cleanup_returns by blast
  note f = cleanup_frame [OF 1]
  have a: "\<exists>s1. cleanup env s = Inr s1 \<and> res s1 = res s" using 1 f(1) by blast
  have b: "ffmpegCommand s = None \<longrightarrow> cleanup env s = Inr s" by (simp add: cleanup_eq)
  have c: "ffmpegCommand s = Some Exited \<longrightarrow>
      cleanup env s =
        Inr (s\<lparr>kills := Suc (kills s),
               console := console s @
                 (case kill_outcome env (kills s) of
                    None \<Rightarrow> []
                  | Some e \<Rightarrow> [LogErrorObject ''Error killing FFmpeg process:'' e])\<rparr>)"
    using exited by blast
  have d: "\<forall>s1. ffmpegCommand s \<noteq> None \<and> kill_outcome env (kills s) = None \<and> cleanup env s = Inr s1 \<longrightarrow>
      ffmpegCommand s1 = Some Exited \<and> kills s1 = Suc (kills s) \<and> console s1 = console s \<and>
      cleanup env s1 =
        Inr (s1\<lparr>kills := Suc (kills s1),
                console := console s1 @
                  (case kill_outcome env (kills s1) of
                     None \<Rightarrow> []
                   | Some e \<Rightarrow> [LogErrorObject ''Error killing FFmpeg process:'' e])\<rparr>)"
  proof (intro allI impI, elim conjE)
    fix t assume h: "ffmpegCommand s \<noteq> None" "kill_outcome env (kills s) = None" "cleanup env s = Inr t"
    then obtain p where p: "ffmpegCommand s = Some p" by blast
    from h(3) h(2) p have t: "t = s\<lparr>ffmpegCommand := Some Exited, kills := Suc (kills s)\<rparr>"
      by (simp add: cleanup_eq)
    then have e: "ffmpegCommand t = Some Exited" and k: "kills t = Suc (kills s)"
      and l: "console t = console s"
      by simp_all
    from exited [OF e] e k l show "ffmpegCommand t = Some Exited \<and> kills t = Suc (kills s) \<and>
      console t = console s \<and>
      cleanup env t =
        Inr (t\<lparr>kills := Suc (kills t),
               console := console t @
                 (case kill_outcome env (kills t) of
                    None \<Rightarrow> []
                  | Some e \<Rightarrow> [LogErrorObject ''Error killing FFmpeg process:'' e])\<rparr>)"
      by (intro conjI)
  qed
  show ?thesis by (intro conjI) (rule a b c d)+
qed

theorem cleanup_repeated_witness:
  "ffmpegCommand example_streaming \<noteq> None \<and>
   kill_outcome example_env (kills example_streaming) = None \<and>
   cleanup example_env example_streaming
     = Inr (example_streaming\<lparr>ffmpegCommand := Some Exited, kills := 1\<rparr>) \<and>
   cleanup example_env (example_streaming\<lparr>ffmpegCommand := Some Exited, kills := 1\<rparr>)
     = Inr (example_streaming\<lparr>ffmpegCommand := Some Exited, kills := 2\<rparr>) \<and>
   ffmpegCommand (example_streaming\<lparr>ffmpegCommand := Some Exited\<rparr>) = Some Exited \<and>
   cleanup throwing_env (example_streaming\<lparr>ffmpegCommand := Some Exited\<rparr>)
     = Inr (example_streaming\<lparr>ffmpegCommand := Some Exited, kills := 1,
              console := [LogErrorObject ''Error killing FFmpeg process:'' (Error ''kill ESRCH'')]\<rparr>) \<and>
   ffmpegCommand (example_streaming\<lparr>ffmpegCommand := None\<rparr>) = None \<and>
   cleanup example_env (example_streaming\<lparr>ffmpegCommand := None\<rparr>)
     = Inr (example_streaming\<lparr>ffmpegCommand := None\<rparr>)"
proof -
  let ?x = "example_streaming\<lparr>ffmpegCommand := Some Exited, kills := 1\<rparr>"
  let ?y = "example_streaming\<lparr>ffmpegCommand := Some Exited\<rparr>"
  let ?z = "example_streaming\<lparr>ffmpegCommand := None\<rparr>"
  have h1: "ffmpegCommand example_streaming \<noteq> None"
    and h2: "kill_outcome example_env (kills example_streaming) = None"
    and h3: "cleanup example_env example_streaming = Inr ?x"
    by (simp_all add: cleanup_eq example_streaming_def example_env_def)
  have h4: "ffmpegCommand ?y = Some Exited" and h5: "ffmpegCommand ?z = None"
    by simp_all
  have pre: "ffmpegCommand example_streaming \<noteq> None \<and>
      kill_outcome example_env (kills example_streaming) = None \<and>
      cleanup example_env example_streaming = Inr ?x"
    by (intro conjI) (rule h1 h2 h3)+
  from cleanup_repeated [of example_env example_streaming, THEN conjunct2, THEN conjunct2,
      THEN conjunct2, THEN spec, of ?x, THEN mp, OF pre,
      THEN conjunct2, THEN conjunct2, THEN conjunct2]
  have "cleanup example_env ?x =
        Inr (?x\<lparr>kills := Suc (kills ?x),
               console := console ?x @
                 (case kill_outcome example_env (kills ?x) of
                    None \<Rightarrow> []
                  | Some e \<Rightarrow> [LogErrorObject ''Error killing FFmpeg process:'' e])\<rparr>)"
    .
  also have "\<dots> = Inr (example_streaming\<lparr>ffmpegCommand := Some Exited, kills := 2\<rparr>)"
    by (simp add: example_streaming_def example_env_def)
  finally have r1: "cleanup example_env ?x
     = Inr (example_streaming\<lparr>ffmpegCommand := Some Exited, kills := 2\<rparr>)" .
  from cleanup_repeated [of throwing_env ?y, THEN conjunct2, THEN conjunct2, THEN conjunct1,
      THEN mp, OF h4]
  have "cleanup throwing_env ?y =
        Inr (?y\<lparr>kills := Suc (kills ?y),
               console := console ?y @
                 (case kill_outcome throwing_env (kills ?y) of
                    None \<Rightarrow> []
                  | Some e \<Rightarrow> [LogErrorObject ''Error killing FFmpeg process:'' e])\<rparr>)" .
  also have "\<dots> = Inr (example_streaming\<lparr>ffmpegCommand := Some Exited, kills := 1,
              console := [LogErrorObject ''Error killing FFmpeg process:'' (Error ''kill ESRCH'')]\<rparr>)"
    by (simp add: example_streaming_def example_env_def throwing_env_def)
  finally have r2: "cleanup throwing_env ?y
     = Inr (example_streaming\<lparr>ffmpegCommand := Some Exited, kills := 1,
              console := [LogErrorObject ''Error killing FFmpeg process:'' (Error ''kill ESRCH'')]\<rparr>)" .
  from cleanup_repeated [of example_env ?z, THEN conjunct2, THEN conjunct1, THEN mp, OF h5]
  have r3: "cleanup example_env ?z = Inr ?z" .
  show ?thesis by (intro conjI) (rule h1 h2 h3 h4 h5 r1 r2 r3)+
qed

text \<open>
  The claim of C6 as stated fails when the second \<^verbatim>\<open>kill\<close> throws: the first \<^verbatim>\<open>cleanup\<close>
  terminates the engine and writes nothing, the second one writes an error line to the
  console.
\<close>

theorem cleanup_second_call_logs:
  "cleanup flaky_env example_streaming
     = Inr (example_streaming\<lparr>ffmpegCommand := Some Exited, kills := 1\<rparr>) \<and>
   console (example_streaming\<lparr>ffmpegCommand := Some Exited, kills := 1\<rparr>) = [] \<and>
   map_sum id console
     (cleanup flaky_env (example_streaming\<lparr>ffmpegCommand := Some Exited, kills := 1\<rparr>))
     = Inr [LogErrorObject ''Error killing FFmpeg process:'' (Error ''kill ESRCH'')]"
  by (simp add: cleanup_eq example_streaming_def example_env_def flaky_env_def log_def)

text \<open>
  C2, as the code has it. In a request of the disconnect-aware handler that is streaming:
  when the client disconnects, the \<^verbatim>\<open>close\<close> listener records it and nothing more, so
  \<^verbatim>\<open>kill\<close> is not called and the engine is left as it is, while nothing is put out to the
  client any more; and once the client has disconnected, the event that takes the request
  down a termination path (the engine reports an error or its end, or the input stream an
  error) makes \<^verbatim>\<open>cleanup\<close> call \<^verbatim>\<open>kill\<close>, after which the process has exited unless that
  call threw, and still puts nothing out.
\<close>

theorem disconnect_recorded_kill_deferred:
  assumes reach: "run (compress env) (compress_request url) evs = Inr s"
    and streaming: "piped s"
  shows "(\<exists>s1. compress env s ReqClose = Inr s1 \<and> \<not> isClientConnected s1 \<and>
            kills s1 = kills s \<and> ffmpegCommand s1 = ffmpegCommand s \<and> ffmpegCommand s1 \<noteq> None \<and>
            headersSent (res s1) = headersSent (res s) \<and> body (res s1) = body (res s)) \<and>
         (\<not> isClientConnected s \<and> termination_path env s ev \<longrightarrow>
            (\<exists>s2. compress env s ev = Inr s2 \<and> kills s2 = Suc (kills s) \<and>
               (kill_outcome env (kills s) = None \<longrightarrow> ffmpegCommand s2 = Some Exited) \<and>
               headersSent (res s2) = headersSent (res s) \<and> body (res s2) = body (res s)))"
proof -
  have t: "tracked s" by (rule tracked_run [OF tracked_request reach])
  from t streaming have cl: "closeListener s" and c: "ffmpegCommand s \<noteq> None"
    and a: "awaiting s = None" and live: "isClientConnected s = (\<not> destroyed (res s))"
    by (simp_all add: tracked_def)
  have first: "\<exists>s1. compress env s ReqClose = Inr s1 \<and> \<not> isClientConnected s1 \<and>
            kills s1 = kills s \<and> ffmpegCommand s1 = ffmpegCommand s \<and> ffmpegCommand s1 \<noteq> None \<and>
            headersSent (res s1) = headersSent (res s) \<and> body (res s1) = body (res s)"
    using cl c by (simp add: compress_def on_close_def socket_closed_def Let_def)
  have second: "\<not> isClientConnected s \<and> termination_path env s ev \<longrightarrow>
            (\<exists>s2. compress env s ev = Inr s2 \<and> kills s2 = Suc (kills s) \<and>
               (kill_outcome env (kills s) = None \<longrightarrow> ffmpegCommand s2 = Some Exited) \<and>
               headersSent (res s2) = headersSent (res s) \<and> body (res s2) = body (res s))"
  proof (intro impI, elim conjE)
    assume gone: "\<not> isClientConnected s" and path: "termination_path env s ev"
    from gone live have d: "destroyed (res s)" by simp
    obtain s2 where step: "compress env s ev = Inr s2" using compress_returns by blast
    have r: "kills s2 = Suc (kills s) \<and>
          (kill_outcome env (kills s) = None \<longrightarrow> ffmpegCommand s2 = Some Exited) \<and>
          headersSent (res s2) = headersSent (res s) \<and> body (res s2) = body (res s)"
    proof (cases ev)
      case (StreamError e)
      with path step have "on_stream_error env e s = Inr s2"
        by (simp add: compress_def termination_path_def)
      note f = on_stream_error_frame [OF this]
      from f(10,11,12) c d show ?thesis by simp
    next
      case (FfmpegError e err)
      with path step have "on_error env e err s = Inr s2"
        by (simp add: compress_def termination_path_def)
      note f = on_error_frame [OF this]
      from f(10,11,12) c gone show ?thesis by simp
    next
      case FfmpegEnd
      with path step have "on_end env (process_exited s) = Inr s2"
        by (simp add: compress_def termination_path_def)
      note f = on_end_frame [OF this]
      from f(10,11,12) c show ?thesis by simp
    qed (use path a in \<open>simp_all add: termination_path_def\<close>)
    with step show "\<exists>s2. compress env s ev = Inr s2 \<and> kills s2 = Suc (kills s) \<and>
               (kill_outcome env (kills s) = None \<longrightarrow> ffmpegCommand s2 = Some Exited) \<and>
               headersSent (res s2) = headersSent (res s) \<and> body (res s2) = body (res s)"
      by (intro exI [of _ s2]) simp
  qed
  show ?thesis by (intro conjI) (rule first second)+
qed

lemma example_run_sent_gone:
  "run (compress example_env) (compress_request (Some example_url))
     [HeadSettled (Responded 200 []), GetSettled (Responded 200 []), FfmpegOutput ''chunk'', ReqClose]
   = Inr (on_close (example_streaming\<lparr>res := socket_closed (pipe_write ''chunk'' (res example_streaming))\<rparr>))"
proof -
  have "run (compress example_env) (compress_request (Some example_url))
        ([HeadSettled (Responded 200 []), GetSettled (Responded 200 []), FfmpegOutput ''chunk''] @ [ReqClose])
     = compress example_env (example_streaming\<lparr>res := pipe_write ''chunk'' (res example_streaming)\<rparr>) ReqClose"
    unfolding run_append example_run_sent by (simp split: sum.splits)
  then show ?thesis by (simp add: compress_def example_streaming_def Let_def)
qed

theorem disconnect_recorded_kill_deferred_witness:
  "run (compress example_env) (compress_request (Some example_url))
     [HeadSettled (Responded 200 []), GetSettled (Responded 200 []), FfmpegOutput ''chunk'', ReqClose]
   = Inr (on_close (example_streaming\<lparr>res := socket_closed (pipe_write ''chunk'' (res example_streaming))\<rparr>)) \<and>
   piped (on_close (example_streaming\<lparr>res := socket_closed (pipe_write ''chunk'' (res example_streaming))\<rparr>)) \<and>
   \<not> isClientConnected
       (on_close (example_streaming\<lparr>res := socket_closed (pipe_write ''chunk'' (res example_streaming))\<rparr>)) \<and>
   kills (on_close (example_streaming\<lparr>res := socket_closed (pipe_write ''chunk'' (res example_streaming))\<rparr>)) = 0 \<and>
   termination_path example_env
     (on_close (example_streaming\<lparr>res := socket_closed (pipe_write ''chunk'' (res example_streaming))\<rparr>))
     (FfmpegError (Error ''Output stream closed'') None) \<and>
   map_sum id kills
     (compress example_env
        (on_close (example_streaming\<lparr>res := socket_closed (pipe_write ''chunk'' (res example_streaming))\<rparr>))
        (FfmpegError (Error ''Output stream closed'') None)) = Inr 1 \<and>
   map_sum id ffmpegCommand
     (compress example_env
        (on_close (example_streaming\<lparr>res := socket_closed (pipe_write ''chunk'' (res example_streaming))\<rparr>))
        (FfmpegError (Error ''Output stream closed'') None)) = Inr (Some Exited) \<and>
   map_sum id body (map_sum id res
     (compress example_env
        (on_close (example_streaming\<lparr>res := socket_closed (pipe_write ''chunk'' (res example_streaming))\<rparr>))
        (FfmpegError (Error ''Output stream closed'') None))) = Inr [''chunk'']"
proof -
  let ?s = "on_close (example_streaming\<lparr>res := socket_closed (pipe_write ''chunk'' (res example_streaming))\<rparr>)"
  have p: "piped ?s" by (simp add: on_close_def log_def example_streaming_def)
  have v: "\<not> isClientConnected ?s" "kills ?s = 0" "kill_outcome example_env 0 = None"
    "body (res ?s) = [''chunk'']"
    by (simp_all add: on_close_def log_def example_streaming_def example_env_def socket_closed_def
        pipe_write_def)
  have tp: "termination_path example_env ?s (FfmpegError (Error ''Output stream closed'') None)"
    by (simp add: termination_path_def on_close_def log_def example_streaming_def)
  from disconnect_recorded_kill_deferred [OF example_run_sent_gone p,
      of "FfmpegError (Error ''Output stream closed'') None"] v tp
  obtain s2 where
    "compress example_env ?s (FfmpegError (Error ''Output stream closed'') None) = Inr s2"
    "kills s2 = Suc 0" "ffmpegCommand s2 = Some Exited" "body (res s2) = [''chunk'']"
    by auto
  with example_run_sent_gone p v tp show ?thesis by simp
qed

text \<open>
  The claim of C2 as stated fails: the client disconnects in mid-stream and the engine
  goes on reporting progress; the handler has recorded the disconnect, and has not called
  \<^verbatim>\<open>kill\<close>, so the engine is still running.
\<close>

theorem disconnect_does_not_kill:
  "map_sum id isClientConnected
     (run (compress example_env) (compress_request (Some example_url))
        [HeadSettled (Responded 200 []), GetSettled (Responded 200 []), FfmpegOutput ''chunk'',
         ReqClose, FfmpegProgress (Some (Progress None))]) = Inr False \<and>
   map_sum id kills
     (run (compress example_env) (compress_request (Some example_url))
        [HeadSettled (Responded 200 []), GetSettled (Responded 200 []), FfmpegOutput ''chunk'',
         ReqClose, FfmpegProgress (Some (Progress None))]) = Inr 0 \<and>
   map_sum id ffmpegCommand
     (run (compress example_env) (compress_request (Some example_url))
        [HeadSettled (Responded 200 []), GetSettled (Responded 200 []), FfmpegOutput ''chunk'',
         ReqClose, FfmpegProgress (Some (Progress None))]) = Inr (Some Running)"
proof -
  have "run (compress example_env) (compress_request (Some example_url))
        ([HeadSettled (Responded 200 []), GetSettled (Responded 200 []), FfmpegOutput ''chunk'', ReqClose]
         @ [FfmpegProgress (Some (Progress None))])
     = compress example_env
         (on_close (example_streaming\<lparr>res := socket_closed (pipe_write ''chunk'' (res example_streaming))\<rparr>))
         (FfmpegProgress (Some (Progress None)))"
    unfolding run_append example_run_sent_gone by (simp split: sum.splits)
  then show ?thesis
    by (simp add: compress_def on_progress_def get_percent_def on_close_def log_def
        example_streaming_def)
qed

text \<open>
  C9, as the code has it. In the disconnect-aware handler the \<^verbatim>\<open>progress\<close> listener
  returns for every payload, missing or with \<^verbatim>\<open>percent\<close> undefined, and no sequence of
  events ends a request with an exception. In the earlier handler the listener returns
  whenever a payload is delivered, also with \<^verbatim>\<open>percent\<close> undefined.
\<close>

theorem progress_never_throws:
  "(\<exists>s'. on_progress progress s = Inr s') \<and>
   (\<exists>s'. run (compress env) s evs = Inr s') \<and>
   (progress \<noteq> None \<longrightarrow> (\<exists>s'. on_progress_index progress s = Inr s'))"
  using on_progress_returns [of progress s] run_returns [of env s evs]
  by (cases progress) (auto simp: on_progress_index_def get_percent_def)

theorem progress_never_throws_witness:
  "Some (Progress None) \<noteq> None \<and>
   on_progress_index (Some (Progress None)) example_streaming = Inr (log (LogPercent None) example_streaming) \<and>
   on_progress (Some (Progress None)) example_streaming = Inr example_streaming \<and>
   on_progress None example_streaming = Inr example_streaming"
  using progress_never_throws [of "Some (Progress None)" example_streaming example_env "[]"]
  by (simp add: on_progress_index_def on_progress_def get_percent_def)

text \<open>
  The claim of C9 as stated fails in the earlier handler, which reads \<^verbatim>\<open>progress.percent\<close>
  unguarded: a \<^verbatim>\<open>progress\<close> event without payload throws a \<^verbatim>\<open>TypeError\<close> out of the listener.
\<close>

theorem index_progress_throws:
  "run (compress_index example_env) (compress_request_index (Some example_url))
     [HeadSettled (Responded 200 []), GetSettled (Responded 200 []), FfmpegProgress None]
   = Inl (TypeError ''Cannot read properties of undefined'')"
proof -
  have "run (compress_index example_env) (compress_request_index (Some example_url))
        ([HeadSettled (Responded 200 []), GetSettled (Responded 200 [])] @ [FfmpegProgress None])
     = run (compress_index example_env) (example_streaming\<lparr>closeListener := False\<rparr>) [FfmpegProgress None]"
    unfolding run_append example_run_index by simp
  then show ?thesis
    by (simp add: compress_index_def on_progress_index_def get_percent_def example_streaming_def)
qed

end
